theory Spec2Isabelle
  imports Main
begin

section \<open>Strings, errors and the standard library pieces that main.go calls\<close>

text \<open>
  A Go string is a sequence of bytes; it is modelled as a \<open>string\<close> (a list of 8-bit
  characters). \<open>byte c\<close> is the numeric value of a byte. Runes (code points) are natural
  numbers.
\<close>

abbreviation byte :: "char \<Rightarrow> nat" where
  "byte c \<equiv> of_char c"

abbreviation NL :: char where
  "NL \<equiv> CHR 0x0A"

text \<open>
  The error values that can reach main.go. \<open>Wrapped msg e\<close> is
  \<^verbatim>\<open>fmt.Errorf(msg + "%w", e)\<close>; \<open>OSError m\<close> is an error of the operating system with
  message \<open>m\<close>; the others are the errors of \<^verbatim>\<open>io\<close>, \<^verbatim>\<open>encoding/json\<close> and of the remote
  service.
\<close>

datatype error =
    EOF
  | ErrUnexpectedEOF
  | SyntaxError
  | UnmarshalTypeError
  | OSError string
  | RemoteError string
  | Wrapped string error

subsection \<open>unicode/utf8\<close>

definition RuneError :: nat where
  "RuneError = 0xFFFD"

text \<open>The accepted range of the second byte of a sequence, by its first byte
  (the table \<^verbatim>\<open>acceptRanges\<close>).\<close>

definition accept_lo :: "nat \<Rightarrow> nat" where
  "accept_lo p0 = (if p0 = 0xE0 then 0xA0 else if p0 = 0xF0 then 0x90 else 0x80)"

definition accept_hi :: "nat \<Rightarrow> nat" where
  "accept_hi p0 = (if p0 = 0xED then 0x9F else if p0 = 0xF4 then 0x8F else 0xBF)"

definition cont_byte :: "nat \<Rightarrow> bool" where
  "cont_byte b = (0x80 \<le> b \<and> b \<le> 0xBF)"

text \<open>
  \<^verbatim>\<open>utf8.DecodeRune\<close>: the first rune of \<open>p\<close> and its width in bytes. An invalid or
  truncated encoding gives \<open>(RuneError, 1)\<close>, the empty input \<open>(RuneError, 0)\<close>. First bytes
  0x80..0xC1 and 0xF5..0xFF are invalid, 0xC2..0xDF start two bytes, 0xE0..0xEF three,
  0xF0..0xF4 four. Masking and shifting are written as \<open>mod\<close> and multiplication.
\<close>

fun DecodeRune :: "string \<Rightarrow> nat \<times> nat" where
  "DecodeRune [] = (RuneError, 0)"
| "DecodeRune (c0 # p) =
    (let p0 = byte c0 in
     if p0 < 0x80 then (p0, 1)
     else if p0 < 0xC2 \<or> 0xF4 < p0 then (RuneError, 1)
     else if p0 < 0xE0 then
       (case p of
          c1 # _ \<Rightarrow>
            if byte c1 < accept_lo p0 \<or> accept_hi p0 < byte c1 then (RuneError, 1)
            else ((p0 mod 32) * 64 + byte c1 mod 64, 2)
        | _ \<Rightarrow> (RuneError, 1))
     else if p0 < 0xF0 then
       (case p of
          c1 # c2 # _ \<Rightarrow>
            if byte c1 < accept_lo p0 \<or> accept_hi p0 < byte c1 then (RuneError, 1)
            else if \<not> cont_byte (byte c2) then (RuneError, 1)
            else ((p0 mod 16) * 4096 + (byte c1 mod 64) * 64 + byte c2 mod 64, 3)
        | _ \<Rightarrow> (RuneError, 1))
     else
       (case p of
          c1 # c2 # c3 # _ \<Rightarrow>
            if byte c1 < accept_lo p0 \<or> accept_hi p0 < byte c1 then (RuneError, 1)
            else if \<not> cont_byte (byte c2) then (RuneError, 1)
            else if \<not> cont_byte (byte c3) then (RuneError, 1)
            else ((p0 mod 8) * 262144 + (byte c1 mod 64) * 4096 + (byte c2 mod 64) * 64
                    + byte c3 mod 64, 4)
        | _ \<Rightarrow> (RuneError, 1)))"

lemma DecodeRune_size_pos: "s \<noteq> [] \<Longrightarrow> 0 < snd (DecodeRune s)"
  by (cases s) (simp_all add: Let_def split: list.splits)

declare DecodeRune.simps [simp del]

text \<open>\<^verbatim>\<open>utf8.RuneStart\<close>: the byte is not a continuation byte.\<close>

definition RuneStart :: "char \<Rightarrow> bool" where
  "RuneStart c = (\<not> cont_byte (byte c))"

text \<open>
  The backwards scan of \<^verbatim>\<open>utf8.DecodeLastRune\<close>: from index \<open>s\<close> it steps down to the
  first index, not below \<open>lim\<close>, that holds a rune start. When there is none the Go loop
  leaves \<open>lim - 1\<close>, raised to 0 when negative.
\<close>

fun last_start :: "string \<Rightarrow> nat \<Rightarrow> nat \<Rightarrow> nat" where
  "last_start p lim s =
     (if s \<le> lim then lim - 1
      else if RuneStart (p ! (s - 1)) then s - 1
      else last_start p lim (s - 1))"

declare last_start.simps [simp del]

definition DecodeLastRune :: "string \<Rightarrow> nat \<times> nat" where
  "DecodeLastRune p =
     (let end = length p in
      if end = 0 then (RuneError, 0)
      else
        let r = byte (p ! (end - 1)) in
        if r < 0x80 then (r, 1)
        else
          let start = last_start p (end - 4) (end - 1);
              (r, size) = DecodeRune (drop start p)
          in if start + size \<noteq> end then (RuneError, 1) else (r, size))"

lemma last_start_le: "lim \<le> s \<Longrightarrow> last_start p lim s \<le> s - 1"
proof (induction p lim s rule: last_start.induct)
  case (1 p lim s)
  show ?case
  proof (cases "s \<le> lim")
    case True
    with "1.prems" show ?thesis by (subst last_start.simps) simp
  next
    case False
    then have "lim \<le> s - 1" by simp
    with False "1.IH" have "\<not> RuneStart (p ! (s - 1)) \<Longrightarrow> last_start p lim (s - 1) \<le> s - 1 - 1"
      by simp
    with False show ?thesis by (subst last_start.simps) auto
  qed
qed

lemma DecodeLastRune_size_pos: "s \<noteq> [] \<Longrightarrow> 0 < snd (DecodeLastRune s)"
proof -
  assume ne: "s \<noteq> []"
  have "last_start s (length s - 4) (length s - 1) \<le> length s - 1 - 1"
    by (rule last_start_le) simp
  with ne have "last_start s (length s - 4) (length s - 1) < length s"
    by (cases s) simp_all
  then have "drop (last_start s (length s - 4) (length s - 1)) s \<noteq> []" by simp
  then have "0 < snd (DecodeRune (drop (last_start s (length s - 4) (length s - 1)) s))"
    by (rule DecodeRune_size_pos)
  with ne show ?thesis
    by (auto simp add: DecodeLastRune_def Let_def split: prod.splits)
qed

subsection \<open>unicode.IsSpace and strings.TrimSpace\<close>

definition IsSpace :: "nat \<Rightarrow> bool" where
  "IsSpace r =
     (if r \<le> 0xFF then r \<in> {0x09, 0x0A, 0x0B, 0x0C, 0x0D, 0x20, 0x85, 0xA0}
      else r = 0x1680 \<or> (0x2000 \<le> r \<and> r \<le> 0x200A) \<or> r = 0x2028 \<or> r = 0x2029
           \<or> r = 0x202F \<or> r = 0x205F \<or> r = 0x3000)"

text \<open>The table \<^verbatim>\<open>asciiSpace\<close> of package strings.\<close>

definition asciiSpace :: "char \<Rightarrow> bool" where
  "asciiSpace c = (byte c \<in> {0x09, 0x0A, 0x0B, 0x0C, 0x0D, 0x20})"

text \<open>
  \<^verbatim>\<open>indexFunc(s, f, truth)\<close>: the byte index of the first rune \<open>r\<close> of \<open>s\<close> with
  \<open>f r = truth\<close>; \<open>None\<close> stands for -1. Ranging over a string decodes it rune by rune.
\<close>

function indexFunc :: "string \<Rightarrow> (nat \<Rightarrow> bool) \<Rightarrow> bool \<Rightarrow> nat option" where
  "indexFunc s f truth =
     (if s = [] then None
      else if f (fst (DecodeRune s)) = truth then Some 0
      else map_option (\<lambda>i. i + snd (DecodeRune s))
             (indexFunc (drop (snd (DecodeRune s)) s) f truth))"
  by pat_completeness auto
termination
  by (relation "measure (\<lambda>(s, f, truth). length s)") (auto simp add: DecodeRune_size_pos)

declare indexFunc.simps [simp del]

text \<open>
  \<^verbatim>\<open>lastIndexFunc(s, f, truth)\<close>, with the loop variable \<open>i\<close> (initially the length
  of \<open>s\<close>) as an argument.
\<close>

function lastIndexFunc :: "string \<Rightarrow> (nat \<Rightarrow> bool) \<Rightarrow> bool \<Rightarrow> nat \<Rightarrow> nat option" where
  "lastIndexFunc s f truth i =
     (if i = 0 \<or> length s < i then None
      else if f (fst (DecodeLastRune (take i s))) = truth
        then Some (i - snd (DecodeLastRune (take i s)))
      else lastIndexFunc s f truth (i - snd (DecodeLastRune (take i s))))"
  by pat_completeness auto
termination
proof (relation "measure (\<lambda>(s, f, truth, i). i)")
  show "wf (measure (\<lambda>(s, f, truth, i). i))" by simp
next
  fix s :: string and f :: "nat \<Rightarrow> bool" and truth :: bool and i :: nat
  assume a: "\<not> (i = 0 \<or> length s < i)"
  then have "take i s \<noteq> []" by auto
  then have "0 < snd (DecodeLastRune (take i s))" by (rule DecodeLastRune_size_pos)
  with a show "((s, f, truth, i - snd (DecodeLastRune (take i s))), (s, f, truth, i))
      \<in> measure (\<lambda>(s, f, truth, i). i)" by simp
qed

declare lastIndexFunc.simps [simp del]

definition TrimLeftFunc :: "string \<Rightarrow> (nat \<Rightarrow> bool) \<Rightarrow> string" where
  "TrimLeftFunc s f = (case indexFunc s f False of None \<Rightarrow> [] | Some i \<Rightarrow> drop i s)"

definition TrimRightFunc :: "string \<Rightarrow> (nat \<Rightarrow> bool) \<Rightarrow> string" where
  "TrimRightFunc s f =
     (case lastIndexFunc s f False (length s) of
        None \<Rightarrow> []
      | Some i \<Rightarrow>
          if 0x80 \<le> byte (s ! i) then take (i + snd (DecodeRune (drop i s))) s
          else take (i + 1) s)"

definition TrimFunc :: "string \<Rightarrow> (nat \<Rightarrow> bool) \<Rightarrow> string" where
  "TrimFunc s f = TrimRightFunc (TrimLeftFunc s f) f"

text \<open>
  The two ASCII loops of \<^verbatim>\<open>strings.TrimSpace\<close> are one scan, run on the string and then
  on the reverse of what is left: it drops ASCII spaces and stops at the first other byte.
  \<open>Inl\<close> reports a byte of a multi-byte encoding (the fall back to the rune-wise
  functions), \<open>Inr\<close> an ASCII byte or the end.
\<close>

fun ascii_scan :: "string \<Rightarrow> string + string" where
  "ascii_scan [] = Inr []"
| "ascii_scan (c # cs) =
     (if 0x80 \<le> byte c then Inl (c # cs)
      else if asciiSpace c then ascii_scan cs
      else Inr (c # cs))"

definition TrimSpace :: "string \<Rightarrow> string" where
  "TrimSpace s =
     (case ascii_scan s of
        Inl t \<Rightarrow> TrimFunc t IsSpace
      | Inr t \<Rightarrow>
          (case ascii_scan (rev t) of
             Inl u \<Rightarrow> TrimRightFunc (rev u) IsSpace
           | Inr u \<Rightarrow> rev u))"

subsection \<open>Standard input and bufio.Reader.ReadString\<close>

text \<open>
  What a reader on standard input delivers: bytes, and read errors between them. The end
  of the list is the end of the input, where every read reports \<open>EOF\<close>.
\<close>

datatype stdin_event = Byte char | ReadFault error

text \<open>
  \<^verbatim>\<open>reader.ReadString('\n')\<close>: the bytes up to and including the first newline and no
  error, or the bytes before an error together with that error. The second component of the
  result is the input that remains.
\<close>

fun ReadString :: "stdin_event list \<Rightarrow> (string \<times> error option) \<times> stdin_event list" where
  "ReadString [] = (([], Some EOF), [])"
| "ReadString (ReadFault e # rest) = (([], Some e), rest)"
| "ReadString (Byte c # rest) =
     (if c = NL then (([c], None), rest)
      else (case ReadString rest of ((s, err), rest') \<Rightarrow> ((c # s, err), rest')))"

text \<open>The events of a text typed or piped in without read errors.\<close>

definition bytes :: "string \<Rightarrow> stdin_event list" where
  "bytes s = map Byte s"

subsection \<open>The configuration record\<close>

text \<open>The struct \<^verbatim>\<open>Config\<close>.\<close>

record Config =
  ConsumerKey :: string
  ConsumerSecret :: string
  AccessToken :: string
  AccessSecret :: string

text \<open>\<^verbatim>\<open>&Config{}\<close>: every field is the empty string.\<close>

definition emptyConfig :: Config where
  "emptyConfig =
     \<lparr>ConsumerKey = [], ConsumerSecret = [], AccessToken = [], AccessSecret = []\<rparr>"

subsection \<open>encoding/json: writing a string\<close>

abbreviation DQ :: char where
  "DQ \<equiv> CHR 0x22"

abbreviation BS :: char where
  "BS \<equiv> CHR 0x5C"

text \<open>\<^verbatim>\<open>utf8.AppendRune\<close>: a surrogate or a value beyond U+10FFFF is written as U+FFFD.\<close>

definition EncodeRune :: "nat \<Rightarrow> string" where
  "EncodeRune r =
     (if r \<le> 0x7F then [char_of r]
      else if r \<le> 0x7FF then [char_of (0xC0 + r div 64), char_of (0x80 + r mod 64)]
      else if 0x10FFFF < r \<or> (0xD800 \<le> r \<and> r \<le> 0xDFFF) then [CHR 0xEF, CHR 0xBF, CHR 0xBD]
      else if r \<le> 0xFFFF then
        [char_of (0xE0 + r div 4096), char_of (0x80 + (r div 64) mod 64), char_of (0x80 + r mod 64)]
      else
        [char_of (0xF0 + r div 262144), char_of (0x80 + (r div 4096) mod 64),
         char_of (0x80 + (r div 64) mod 64), char_of (0x80 + r mod 64)])"

definition hex :: "nat \<Rightarrow> char" where
  "hex n = ''0123456789abcdef'' ! n"

text \<open>The table \<^verbatim>\<open>htmlSafeSet\<close>: the ASCII bytes written as they are. The encoder of
  \<^verbatim>\<open>saveConfig\<close> keeps the default, which escapes HTML.\<close>

definition htmlSafeSet :: "char \<Rightarrow> bool" where
  "htmlSafeSet c =
     (0x20 \<le> byte c \<and> byte c < 0x80 \<and> c \<noteq> DQ \<and> c \<noteq> BS \<and> c \<noteq> CHR ''<'' \<and> c \<noteq> CHR ''>''
      \<and> c \<noteq> CHR ''&'')"

text \<open>The escape of an ASCII byte outside \<^verbatim>\<open>htmlSafeSet\<close>.\<close>

definition escape_ascii :: "char \<Rightarrow> string" where
  "escape_ascii c =
     (if c = BS \<or> c = DQ then [BS, c]
      else if c = CHR 0x08 then [BS, CHR ''b'']
      else if c = CHR 0x0C then [BS, CHR ''f'']
      else if c = NL then [BS, CHR ''n'']
      else if c = CHR 0x0D then [BS, CHR ''r'']
      else if c = CHR 0x09 then [BS, CHR ''t'']
      else [BS, CHR ''u'', CHR ''0'', CHR ''0'', hex (byte c div 16), hex (byte c mod 16)])"

text \<open>
  The loop of \<^verbatim>\<open>appendString\<close>, between the two quotes: safe ASCII is copied, other ASCII
  escaped, an invalid byte written as the escape of U+FFFD, U+2028 and U+2029 escaped, every other
  rune copied with its bytes.
\<close>

function appendString :: "string \<Rightarrow> string" where
  "appendString src =
     (case src of
        [] \<Rightarrow> []
      | b # rest \<Rightarrow>
          if byte b < 0x80 then
            (if htmlSafeSet b then b # appendString rest
             else escape_ascii b @ appendString rest)
          else if fst (DecodeRune src) = RuneError \<and> snd (DecodeRune src) = 1 then
            [BS, CHR ''u'', CHR ''f'', CHR ''f'', CHR ''f'', CHR ''d''] @ appendString rest
          else if fst (DecodeRune src) = 0x2028 \<or> fst (DecodeRune src) = 0x2029 then
            [BS, CHR ''u'', CHR ''2'', CHR ''0'', CHR ''2'', hex (fst (DecodeRune src) mod 16)]
              @ appendString (drop (snd (DecodeRune src)) src)
          else take (snd (DecodeRune src)) src @ appendString (drop (snd (DecodeRune src)) src))"
  by pat_completeness auto
termination
proof (relation "measure length")
  show "wf (measure length)" by simp
next
  fix src :: string and b rest
  assume "src = b # rest"
  then show "(rest, src) \<in> measure length" by simp
  then show "(rest, src) \<in> measure length" .
  then show "(rest, src) \<in> measure length" .
next
  fix src :: string and b rest
  assume a: "src = b # rest"
  then have "0 < snd (DecodeRune src)" by (simp add: DecodeRune_size_pos)
  with a show "(drop (snd (DecodeRune src)) src, src) \<in> measure length" by simp
  then show "(drop (snd (DecodeRune src)) src, src) \<in> measure length" .
qed

declare appendString.simps [simp del]

definition quote :: "string \<Rightarrow> string" where
  "quote s = DQ # appendString s @ [DQ]"

text \<open>
  What \<^verbatim>\<open>encoder.Encode(config)\<close> writes with \<^verbatim>\<open>SetIndent("", "  ")\<close>: the object with
  the four fields in the order of the struct, one per line, indented by two spaces, and a
  final newline.
\<close>

definition member_line :: "string \<Rightarrow> string \<Rightarrow> string" where
  "member_line name v = ''  '' @ quote name @ '': '' @ quote v"

definition encode_Config :: "Config \<Rightarrow> string" where
  "encode_Config c =
     ''{'' @ [NL]
     @ member_line ''consumer_key'' (ConsumerKey c) @ '','' @ [NL]
     @ member_line ''consumer_secret'' (ConsumerSecret c) @ '','' @ [NL]
     @ member_line ''access_token'' (AccessToken c) @ '','' @ [NL]
     @ member_line ''access_secret'' (AccessSecret c) @ [NL]
     @ ''}'' @ [NL]"

subsection \<open>encoding/json: reading a value\<close>

datatype json =
    JNull
  | JBool bool
  | JNumber
  | JString string
  | JArray "json list"
  | JObject "(string \<times> json) list"

definition isSpace :: "char \<Rightarrow> bool" where
  "isSpace c = (c = CHR '' '' \<or> c = CHR 0x09 \<or> c = CHR 0x0D \<or> c = NL)"

fun skip_space :: "string \<Rightarrow> string" where
  "skip_space [] = []"
| "skip_space (c # cs) = (if isSpace c then skip_space cs else c # cs)"

definition is_digit :: "char \<Rightarrow> bool" where
  "is_digit c = (0x30 \<le> byte c \<and> byte c \<le> 0x39)"

fun skip_digits :: "string \<Rightarrow> string" where
  "skip_digits [] = []"
| "skip_digits (c # cs) = (if is_digit c then skip_digits cs else c # cs)"

definition hexval :: "char \<Rightarrow> nat option" where
  "hexval c =
     (if 0x30 \<le> byte c \<and> byte c \<le> 0x39 then Some (byte c - 0x30)
      else if 0x61 \<le> byte c \<and> byte c \<le> 0x66 then Some (byte c - 0x61 + 10)
      else if 0x41 \<le> byte c \<and> byte c \<le> 0x46 then Some (byte c - 0x41 + 10)
      else None)"

fun hex4 :: "string \<Rightarrow> error + nat" where
  "hex4 (a # b # c # d # _) =
     (case (hexval a, hexval b, hexval c, hexval d) of
        (Some x, Some y, Some z, Some u) \<Rightarrow> Inr (((x * 16 + y) * 16 + z) * 16 + u)
      | _ \<Rightarrow> Inl SyntaxError)"
| "hex4 s = (if list_all (\<lambda>c. hexval c \<noteq> None) s then Inl ErrUnexpectedEOF else Inl SyntaxError)"

fun getu4 :: "string \<Rightarrow> nat option" where
  "getu4 (b # u # rest) =
     (if b = BS \<and> u = CHR ''u'' then (case hex4 rest of Inr r \<Rightarrow> Some r | Inl _ \<Rightarrow> None)
      else None)"
| "getu4 _ = None"

definition simple_escape :: "char \<Rightarrow> char option" where
  "simple_escape c =
     (if c = DQ \<or> c = BS \<or> c = CHR ''/'' then Some c
      else if c = CHR ''b'' then Some (CHR 0x08)
      else if c = CHR ''f'' then Some (CHR 0x0C)
      else if c = CHR ''n'' then Some NL
      else if c = CHR ''r'' then Some (CHR 0x0D)
      else if c = CHR ''t'' then Some (CHR 0x09)
      else None)"

definition is_surrogate :: "nat \<Rightarrow> bool" where
  "is_surrogate r = (0xD800 \<le> r \<and> r < 0xE000)"

definition utf16_DecodeRune :: "nat \<Rightarrow> nat \<Rightarrow> nat" where
  "utf16_DecodeRune r1 r2 =
     (if 0xD800 \<le> r1 \<and> r1 < 0xDC00 \<and> 0xDC00 \<le> r2 \<and> r2 < 0xE000
      then (r1 - 0xD800) * 1024 + (r2 - 0xDC00) + 0x10000
      else 0xFFFD)"

fun prepend :: "string \<Rightarrow> error + (string \<times> string) \<Rightarrow> error + (string \<times> string)" where
  "prepend bs (Inl e) = Inl e"
| "prepend bs (Inr (t, rest)) = Inr (bs @ t, rest)"

function string_lit :: "string \<Rightarrow> error + (string \<times> string)" where
  "string_lit s =
     (case s of
        [] \<Rightarrow> Inl ErrUnexpectedEOF
      | c # r \<Rightarrow>
          if c = DQ then Inr ([], r)
          else if c = BS then
            (case r of
               [] \<Rightarrow> Inl ErrUnexpectedEOF
             | e # r' \<Rightarrow>
                 if e = CHR ''u'' then
                   (case hex4 r' of
                      Inl err \<Rightarrow> Inl err
                    | Inr rr \<Rightarrow>
                        if is_surrogate rr then
                          (case getu4 (drop 4 r') of
                             None \<Rightarrow> prepend (EncodeRune 0xFFFD) (string_lit (drop 4 r'))
                           | Some rr1 \<Rightarrow>
                               if utf16_DecodeRune rr rr1 \<noteq> 0xFFFD
                               then prepend (EncodeRune (utf16_DecodeRune rr rr1))
                                      (string_lit (drop 10 r'))
                               else prepend (EncodeRune 0xFFFD) (string_lit (drop 4 r')))
                        else prepend (EncodeRune rr) (string_lit (drop 4 r')))
                 else
                   (case simple_escape e of
                      None \<Rightarrow> Inl SyntaxError
                    | Some x \<Rightarrow> prepend [x] (string_lit r')))
          else if byte c < 0x20 then Inl SyntaxError
          else if byte c < 0x80 then prepend [c] (string_lit r)
          else prepend (EncodeRune (fst (DecodeRune s)))
                 (string_lit (drop (snd (DecodeRune s)) s)))"
  by pat_completeness auto
termination
  by (relation "measure length") (auto simp add: DecodeRune_size_pos)

declare string_lit.simps [simp del]

lemma prependD: "prepend bs x = Inr (t, r) \<Longrightarrow> \<exists>t'. x = Inr (t', r) \<and> t = bs @ t'"
  by (cases x) auto

lemma string_lit_shorter: "string_lit s = Inr (t, r) \<Longrightarrow> length r < length s"
proof (induction "length s" arbitrary: s t r rule: less_induct)
  case less
  have IH: "\<And>s' t' r'. string_lit s' = Inr (t', r') \<Longrightarrow> length s' < length s \<Longrightarrow> length r' < length s'"
    using less.hyps by blast
  have pos: "s \<noteq> [] \<Longrightarrow> 0 < snd (DecodeRune s)" by (rule DecodeRune_size_pos)
  from less.prems pos show ?case
    apply (subst (asm) string_lit.simps)
    apply (auto split: list.splits if_splits sum.splits option.splits dest!: prependD)
    apply (auto dest!: IH)
    done
qed


text \<open>The rest of a literal such as \<^verbatim>\<open>true\<close>, after its first letter.\<close>

fun literal :: "string \<Rightarrow> string \<Rightarrow> error + string" where
  "literal [] s = Inr s"
| "literal (x # xs) [] = Inl ErrUnexpectedEOF"
| "literal (x # xs) (c # cs) = (if c = x then literal xs cs else Inl SyntaxError)"

text \<open>A number after its optional sign: the exponent, the fraction, the integer part.\<close>

definition number_exp :: "string \<Rightarrow> error + string" where
  "number_exp s =
     (case s of
        [] \<Rightarrow> Inr []
      | c # r \<Rightarrow>
          if c = CHR ''e'' \<or> c = CHR ''E'' then
            (case (case r of
                     [] \<Rightarrow> r
                   | sg # r' \<Rightarrow> if sg = CHR ''+'' \<or> sg = CHR ''-'' then r' else r) of
               [] \<Rightarrow> Inl ErrUnexpectedEOF
             | d # r2 \<Rightarrow> if is_digit d then Inr (skip_digits r2) else Inl SyntaxError)
          else Inr s)"

definition number_frac :: "string \<Rightarrow> error + string" where
  "number_frac s =
     (case s of
        [] \<Rightarrow> Inr []
      | c # r \<Rightarrow>
          if c = CHR ''.'' then
            (case r of
               [] \<Rightarrow> Inl ErrUnexpectedEOF
             | d # r' \<Rightarrow> if is_digit d then number_exp (skip_digits r') else Inl SyntaxError)
          else number_exp s)"

definition number :: "string \<Rightarrow> error + string" where
  "number s =
     (case s of
        [] \<Rightarrow> Inl ErrUnexpectedEOF
      | c # r \<Rightarrow>
          if c = CHR ''0'' then number_frac r
          else if is_digit c then number_frac (skip_digits r)
          else Inl SyntaxError)"

definition maxNestingDepth :: nat where
  "maxNestingDepth = 10000"

fun with_value :: "('a \<Rightarrow> 'b) \<Rightarrow> error + ('a \<times> string) \<Rightarrow> error + ('b \<times> string)" where
  "with_value f (Inl e) = Inl e"
| "with_value f (Inr (v, rest)) = Inr (f v, rest)"

lemma length_skip_space: "length (skip_space s) \<le> length s"
  by (induction s) auto

lemma skip_space_Cons_shorter: "skip_space s = c # r \<Longrightarrow> length r < length s"
  using length_skip_space [of s] by simp

function json_value :: "nat \<Rightarrow> string \<Rightarrow> error + (json \<times> string)"
  and json_elements :: "nat \<Rightarrow> string \<Rightarrow> error + (json list \<times> string)"
  and json_members :: "nat \<Rightarrow> string \<Rightarrow> error + ((string \<times> json) list \<times> string)"
where
  "json_value d s =
     (case skip_space s of
        [] \<Rightarrow> Inl ErrUnexpectedEOF
      | c # r \<Rightarrow>
          if c = CHR ''{'' then
            (if maxNestingDepth \<le> d then Inl SyntaxError
             else
               (case skip_space r of
                  [] \<Rightarrow> Inl ErrUnexpectedEOF
                | c' # r' \<Rightarrow>
                    if c' = CHR ''}'' then Inr (JObject [], r')
                    else with_value JObject (json_members (d + 1) r)))
          else if c = CHR ''['' then
            (if maxNestingDepth \<le> d then Inl SyntaxError
             else
               (case skip_space r of
                  [] \<Rightarrow> Inl ErrUnexpectedEOF
                | c' # r' \<Rightarrow>
                    if c' = CHR '']'' then Inr (JArray [], r')
                    else with_value JArray (json_elements (d + 1) r)))
          else if c = DQ then with_value JString (string_lit r)
          else if c = CHR ''-'' then
            (case number r of Inl e \<Rightarrow> Inl e | Inr r' \<Rightarrow> Inr (JNumber, r'))
          else if is_digit c then
            (case number (c # r) of Inl e \<Rightarrow> Inl e | Inr r' \<Rightarrow> Inr (JNumber, r'))
          else if c = CHR ''t'' then
            (case literal ''rue'' r of Inl e \<Rightarrow> Inl e | Inr r' \<Rightarrow> Inr (JBool True, r'))
          else if c = CHR ''f'' then
            (case literal ''alse'' r of Inl e \<Rightarrow> Inl e | Inr r' \<Rightarrow> Inr (JBool False, r'))
          else if c = CHR ''n'' then
            (case literal ''ull'' r of Inl e \<Rightarrow> Inl e | Inr r' \<Rightarrow> Inr (JNull, r'))
          else Inl SyntaxError)"
| "json_elements d s =
     (case json_value d s of
        Inl e \<Rightarrow> Inl e
      | Inr (v, r) \<Rightarrow>
          (case skip_space r of
             [] \<Rightarrow> Inl ErrUnexpectedEOF
           | c # r' \<Rightarrow>
               if c = CHR '','' then
                 (if length r' < length s then with_value ((#) v) (json_elements d r')
                  else Inl SyntaxError)
               else if c = CHR '']'' then Inr ([v], r')
               else Inl SyntaxError))"
| "json_members d s =
     (case skip_space s of
        [] \<Rightarrow> Inl ErrUnexpectedEOF
      | c # r \<Rightarrow>
          if c \<noteq> DQ then Inl SyntaxError
          else
            (case string_lit r of
               Inl e \<Rightarrow> Inl e
             | Inr (k, r1) \<Rightarrow>
                 (case skip_space r1 of
                    [] \<Rightarrow> Inl ErrUnexpectedEOF
                  | c1 # r2 \<Rightarrow>
                      if c1 \<noteq> CHR '':'' then Inl SyntaxError
                      else
                        (case json_value d r2 of
                           Inl e \<Rightarrow> Inl e
                         | Inr (v, r3) \<Rightarrow>
                             (case skip_space r3 of
                                [] \<Rightarrow> Inl ErrUnexpectedEOF
                              | c3 # r4 \<Rightarrow>
                                  if c3 = CHR '','' then
                                    (if length r4 < length s
                                     then with_value ((#) (k, v)) (json_members d r4)
                                     else Inl SyntaxError)
                                  else if c3 = CHR ''}'' then Inr ([(k, v)], r4)
                                  else Inl SyntaxError)))))"
  by pat_completeness auto
termination
  apply (relation "measure (\<lambda>x. case x of
            Inl (d, s) \<Rightarrow> 2 * length s
          | Inr (Inl (d, s)) \<Rightarrow> 2 * length s + 1
          | Inr (Inr (d, s)) \<Rightarrow> 2 * length s + 1)")
  apply (auto dest!: skip_space_Cons_shorter string_lit_shorter)
  done


declare json_value.simps [simp del] json_elements.simps [simp del] json_members.simps [simp del]

subsection \<open>encoding/json: storing an object in a Config\<close>

datatype cfield = FConsumerKey | FConsumerSecret | FAccessToken | FAccessSecret

definition field_name :: "cfield \<Rightarrow> string" where
  "field_name f =
     (case f of
        FConsumerKey \<Rightarrow> ''consumer_key''
      | FConsumerSecret \<Rightarrow> ''consumer_secret''
      | FAccessToken \<Rightarrow> ''access_token''
      | FAccessSecret \<Rightarrow> ''access_secret'')"

definition set_field :: "cfield \<Rightarrow> string \<Rightarrow> Config \<Rightarrow> Config" where
  "set_field f v c =
     (case f of
        FConsumerKey \<Rightarrow> c\<lparr>ConsumerKey := v\<rparr>
      | FConsumerSecret \<Rightarrow> c\<lparr>ConsumerSecret := v\<rparr>
      | FAccessToken \<Rightarrow> c\<lparr>AccessToken := v\<rparr>
      | FAccessSecret \<Rightarrow> c\<lparr>AccessSecret := v\<rparr>)"

text \<open>
  \<^verbatim>\<open>foldRune\<close> on a rune outside ASCII: the Kelvin sign folds to K and the long s to S.
  Every other such rune folds to a rune outside ASCII, which no folded field name
  contains; it is left as it is.
\<close>

definition foldRune :: "nat \<Rightarrow> nat" where
  "foldRune r = (if r = 0x212A then 0x4B else if r = 0x17F then 0x53 else r)"

function foldName :: "string \<Rightarrow> string" where
  "foldName s =
     (case s of
        [] \<Rightarrow> []
      | c # r \<Rightarrow>
          if byte c < 0x80 then
            (if 0x61 \<le> byte c \<and> byte c \<le> 0x7A then char_of (byte c - 0x20) else c) # foldName r
          else EncodeRune (foldRune (fst (DecodeRune s))) @ foldName (drop (snd (DecodeRune s)) s))"
  by pat_completeness auto
termination
  by (relation "measure length") (auto simp add: DecodeRune_size_pos)

declare foldName.simps [simp del]

text \<open>The field for a key: the one with exactly that name, or else the one whose
  folded name is the folded key.\<close>

definition find_field :: "string \<Rightarrow> cfield option" where
  "find_field key =
     (case List.find (\<lambda>f. field_name f = key)
             [FConsumerKey, FConsumerSecret, FAccessToken, FAccessSecret] of
        Some f \<Rightarrow> Some f
      | None \<Rightarrow>
          List.find (\<lambda>f. foldName (field_name f) = foldName key)
            [FConsumerKey, FConsumerSecret, FAccessToken, FAccessSecret])"

text \<open>
  The loop of \<^verbatim>\<open>decodeState.object\<close> over the members, in order: a string is stored
  in the field of its key, \<^verbatim>\<open>null\<close> leaves the field as it is, any other value for a
  field is a type error, of which the first is kept while decoding goes on; a member
  with an unknown key is skipped.
\<close>

fun store_members :: "(string \<times> json) list \<Rightarrow> Config \<Rightarrow> error option \<Rightarrow> Config \<times> error option" where
  "store_members [] c saved = (c, saved)"
| "store_members ((key, v) # kvs) c saved =
     (case find_field key of
        None \<Rightarrow> store_members kvs c saved
      | Some f \<Rightarrow>
          (case v of
             JString x \<Rightarrow> store_members kvs (set_field f x c) saved
           | JNull \<Rightarrow> store_members kvs c saved
           | _ \<Rightarrow>
               store_members kvs c
                 (case saved of None \<Rightarrow> Some UnmarshalTypeError | Some e \<Rightarrow> Some e)))"

definition unmarshal :: "json \<Rightarrow> Config \<Rightarrow> error + Config" where
  "unmarshal v c =
     (case v of
        JNull \<Rightarrow> Inr c
      | JObject kvs \<Rightarrow>
          (case store_members kvs c None of
             (c', None) \<Rightarrow> Inr c'
           | (c', Some e) \<Rightarrow> Inl e)
      | _ \<Rightarrow> Inl UnmarshalTypeError)"

text \<open>
  \<^verbatim>\<open>json.NewDecoder(file).Decode(config)\<close> on a file with the given content: the first
  JSON value of the content is read and stored; what follows it is not looked at.
\<close>

definition Decode :: "string \<Rightarrow> Config \<Rightarrow> error + Config" where
  "Decode content c =
     (if skip_space content = [] then Inl EOF
      else
        (case json_value 0 content of
           Inl e \<Rightarrow> Inl e
         | Inr (v, rest) \<Rightarrow> unmarshal v c))"

section \<open>The program state\<close>

text \<open>
  The part of the file system the program touches: the directory \<^verbatim>\<open>~/.config\<close> is
  missing, or it exists without \<^verbatim>\<open>clix.json\<close>, or the file exists with the given
  content.
\<close>

datatype fs_state = NoDir | NoFile | File string

text \<open>What the program writes to standard output: \<open>Print s\<close> is the text \<open>s\<close>; \<open>PrintErr l e\<close>
  is \<^verbatim>\<open>fmt.Println(l, e)\<close>, the label, a space, the message of \<open>e\<close> and a newline.\<close>

datatype printed = Print string | PrintErr string error

text \<open>
  The world the process runs in. The \<open>_fault\<close> fields say which calls of the operating
  system fail (with what error). \<open>readahead\<close> is the number of events a discarded
  \<^verbatim>\<open>bufio.Reader\<close> had taken from standard input beyond the lines it returned. \<open>newClient\<close>
  is \<^verbatim>\<open>gotwi.NewClient\<close> (whether it rejects the credentials), \<open>remote\<close> the remote
  service: its answer to the \<open>n\<close>-th publish call with the given text, an error or the
  identifier of the new post. \<open>published\<close> records the publish calls made, in order.
\<close>

record world =
  home_fault :: "error option"
  fs :: fs_state
  stat_dir_fault :: "error option"
  stat_file_fault :: "error option"
  mkdir_fault :: "error option"
  open_fault :: "error option"
  create_fault :: "error option"
  write_fault :: "(nat \<times> error) option"
  stdin :: "stdin_event list"
  readahead :: nat
  stdout :: "printed list"
  env :: "string \<rightharpoonup> string"
  newClient :: "Config \<Rightarrow> error option"
  remote :: "nat \<Rightarrow> string \<Rightarrow> error + string"
  published :: "string list"

definition emit :: "printed \<Rightarrow> world \<Rightarrow> world" where
  "emit x w = w\<lparr>stdout := stdout w @ [x]\<rparr>"

section \<open>promptForConfigValues\<close>

text \<open>
  The three lines the function repeats for each field: print the label, read a line
  (the error of the read is discarded), trim it.
\<close>

definition prompt_line :: "string \<Rightarrow> world \<Rightarrow> string \<times> world" where
  "prompt_line label w =
     (case ReadString (stdin (emit (Print label) w)) of
        ((s, _), rest) \<Rightarrow> (TrimSpace s, (emit (Print label) w)\<lparr>stdin := rest\<rparr>))"

text \<open>
  The reader made by \<^verbatim>\<open>bufio.NewReader(os.Stdin)\<close> is dropped when the function returns,
  with what it had read ahead. Nothing is lost when it read nothing.
\<close>

definition discard_reader :: "world \<Rightarrow> world \<Rightarrow> world" where
  "discard_reader w0 w =
     w\<lparr>stdin := (if stdin w = stdin w0 then stdin w else drop (readahead w) (stdin w))\<rparr>"

text \<open>The four \<^verbatim>\<open>if\<close> blocks of the function (lines 81 to 100), each a step on the record
  and the world.\<close>

definition ask_ConsumerKey :: "Config \<times> world \<Rightarrow> Config \<times> world" where
  "ask_ConsumerKey cw =
     (case cw of
        (config, w) \<Rightarrow>
          if ConsumerKey config = [] then
            (case prompt_line ''Enter Consumer Key: '' w of
               (key, w') \<Rightarrow> (config\<lparr>ConsumerKey := key\<rparr>, w'))
          else (config, w))"

definition ask_ConsumerSecret :: "Config \<times> world \<Rightarrow> Config \<times> world" where
  "ask_ConsumerSecret cw =
     (case cw of
        (config, w) \<Rightarrow>
          if ConsumerSecret config = [] then
            (case prompt_line ''Enter Consumer Secret: '' w of
               (secret, w') \<Rightarrow> (config\<lparr>ConsumerSecret := secret\<rparr>, w'))
          else (config, w))"

definition ask_AccessToken :: "Config \<times> world \<Rightarrow> Config \<times> world" where
  "ask_AccessToken cw =
     (case cw of
        (config, w) \<Rightarrow>
          if AccessToken config = [] then
            (case prompt_line ''Enter Access Token: '' w of
               (token, w') \<Rightarrow> (config\<lparr>AccessToken := token\<rparr>, w'))
          else (config, w))"

definition ask_AccessSecret :: "Config \<times> world \<Rightarrow> Config \<times> world" where
  "ask_AccessSecret cw =
     (case cw of
        (config, w) \<Rightarrow>
          if AccessSecret config = [] then
            (case prompt_line ''Enter Access Secret: '' w of
               (secret, w') \<Rightarrow> (config\<lparr>AccessSecret := secret\<rparr>, w'))
          else (config, w))"

text \<open>The function runs the four blocks in this order, drops its reader and returns
  \<^verbatim>\<open>nil\<close>.\<close>

definition promptForConfigValues :: "Config \<Rightarrow> world \<Rightarrow> error option \<times> Config \<times> world" where
  "promptForConfigValues config w =
     (case ask_AccessSecret (ask_AccessToken (ask_ConsumerSecret (ask_ConsumerKey (config, w)))) of
        (config', w') \<Rightarrow> (None, config', discard_reader w w'))"

section \<open>The posting loop of main\<close>

datatype 'a step = Continue 'a | Break 'a

text \<open>One iteration of the \<^verbatim>\<open>for\<close> loop of \<^verbatim>\<open>main\<close> (lines 142 to 168).\<close>

definition loop_body :: "world \<Rightarrow> world step" where
  "loop_body w =
     (let w1 = emit (Print ''tweet: '') w in
      case ReadString (stdin w1) of
        ((tweetText, Some err), rest) \<Rightarrow>
          Continue (emit (PrintErr ''Error reading input:'' err) (w1\<lparr>stdin := rest\<rparr>))
      | ((tweetText, None), rest) \<Rightarrow>
          let w2 = w1\<lparr>stdin := rest\<rparr>;
              tweetText = TrimSpace tweetText
          in
            if tweetText = ''exit'' \<or> tweetText = ''quit''
            then Break (emit (Print (''Goodbye!'' @ [NL])) w2)
            else
              let w3 = w2\<lparr>published := published w2 @ [tweetText]\<rparr> in
              case remote w2 (length (published w2)) tweetText of
                Inl err \<Rightarrow> Continue (emit (PrintErr ''Error posting tweet:'' err) w3)
              | Inr ID \<Rightarrow>
                  Continue
                    (emit (Print (''Tweet posted successfully! [ID: '' @ ID @ '']'' @ [NL, NL]))
                       w3))"

text \<open>The loop: it returns the final world when an iteration breaks, and \<open>None\<close> when
  no iteration ever does.\<close>

partial_function (option) posting_loop :: "world \<Rightarrow> world option" where
  "posting_loop w =
     (case loop_body w of
        Break w' \<Rightarrow> Some w'
      | Continue w' \<Rightarrow> posting_loop w')"

section \<open>The file system calls\<close>

text \<open>\<^verbatim>\<open>os.IsNotExist\<close> of the error of \<^verbatim>\<open>os.Stat(configDir)\<close> and of
  \<^verbatim>\<open>os.Stat(configFilePath)\<close>: a failing stat with another error is not "not exist".\<close>

definition dir_not_exist :: "world \<Rightarrow> bool" where
  "dir_not_exist w = (stat_dir_fault w = None \<and> fs w = NoDir)"

definition file_not_exist :: "world \<Rightarrow> bool" where
  "file_not_exist w = (stat_file_fault w = None \<and> (case fs w of File _ \<Rightarrow> False | _ \<Rightarrow> True))"

definition ENOENT :: error where
  "ENOENT = OSError ''no such file or directory''"

definition MkdirAll :: "world \<Rightarrow> error option \<times> world" where
  "MkdirAll w =
     (case mkdir_fault w of
        Some err \<Rightarrow> (Some err, w)
      | None \<Rightarrow> (None, (case fs w of NoDir \<Rightarrow> w\<lparr>fs := NoFile\<rparr> | _ \<Rightarrow> w)))"

text \<open>\<^verbatim>\<open>os.Open\<close> and the reading of the whole file.\<close>

definition Open :: "world \<Rightarrow> error + string" where
  "Open w =
     (case fs w of
        File content \<Rightarrow> (case open_fault w of Some err \<Rightarrow> Inl err | None \<Rightarrow> Inr content)
      | _ \<Rightarrow> Inl ENOENT)"

text \<open>\<^verbatim>\<open>os.Create\<close>: the file is created, or truncated when it exists.\<close>

definition Create :: "world \<Rightarrow> error option \<times> world" where
  "Create w =
     (case fs w of
        NoDir \<Rightarrow> (Some ENOENT, w)
      | _ \<Rightarrow>
          (case create_fault w of
             Some err \<Rightarrow> (Some err, w)
           | None \<Rightarrow> (None, w\<lparr>fs := File []\<rparr>)))"

text \<open>\<^verbatim>\<open>encoder.Encode(config)\<close> on the created file: a failing write leaves the bytes
  written before the failure.\<close>

definition Encode :: "Config \<Rightarrow> world \<Rightarrow> error option \<times> world" where
  "Encode config w =
     (case write_fault w of
        Some (n, err) \<Rightarrow> (Some err, w\<lparr>fs := File (take n (encode_Config config))\<rparr>)
      | None \<Rightarrow> (None, w\<lparr>fs := File (encode_Config config)\<rparr>))"

text \<open>\<^verbatim>\<open>os.Setenv\<close>, whose error main ignores: a value with a NUL byte is refused.\<close>

definition Setenv :: "string \<Rightarrow> string \<Rightarrow> world \<Rightarrow> world" where
  "Setenv key v w = (if CHR 0x00 \<in> set v then w else w\<lparr>env := (env w)(key \<mapsto> v)\<rparr>)"

section \<open>saveConfig, loadOrCreateConfig and main\<close>

definition saveConfig :: "Config \<Rightarrow> world \<Rightarrow> error option \<times> world" where
  "saveConfig config w =
     (case Create w of
        (Some err, w1) \<Rightarrow> (Some (Wrapped ''failed to create config file: '' err), w1)
      | (None, w1) \<Rightarrow>
          (case Encode config w1 of
             (Some err, w2) \<Rightarrow> (Some (Wrapped ''failed to write config file: '' err), w2)
           | (None, w2) \<Rightarrow> (None, w2)))"

text \<open>\<^verbatim>\<open>getConfigFilePath\<close>: \<open>Some 1\<close> is \<^verbatim>\<open>os.Exit(1)\<close> after the message; otherwise
  the path is the one of the file of \<open>fs\<close>.\<close>

definition getConfigFilePath :: "world \<Rightarrow> nat option \<times> world" where
  "getConfigFilePath w =
     (case home_fault w of
        Some err \<Rightarrow> (Some 1, emit (PrintErr ''Error getting home directory:'' err) w)
      | None \<Rightarrow> (None, w))"

text \<open>The result of \<^verbatim>\<open>loadOrCreateConfig\<close>: the process has exited, or the function
  returned \<^verbatim>\<open>(nil, err)\<close>, or it returned \<^verbatim>\<open>(config, nil)\<close>.\<close>

datatype load_result = Exited nat | Failed error | Loaded Config

definition incomplete :: "Config \<Rightarrow> bool" where
  "incomplete config =
     (ConsumerKey config = [] \<or> ConsumerSecret config = [] \<or> AccessToken config = []
      \<or> AccessSecret config = [])"

text \<open>Lines 48 to 53 and 68 to 73: prompt, then save.\<close>

definition prompt_and_save :: "Config \<Rightarrow> world \<Rightarrow> load_result \<times> world" where
  "prompt_and_save config w =
     (case promptForConfigValues config w of
        (Some err, config', w1) \<Rightarrow> (Failed err, w1)
      | (None, config', w1) \<Rightarrow>
          (case saveConfig config' w1 of
             (Some err, w2) \<Rightarrow> (Failed err, w2)
           | (None, w2) \<Rightarrow> (Loaded config', w2)))"

definition loadOrCreateConfig :: "world \<Rightarrow> load_result \<times> world" where
  "loadOrCreateConfig w =
     (case getConfigFilePath w of
        (Some n, w0) \<Rightarrow> (Exited n, w0)
      | (None, w0) \<Rightarrow>
          (case (if dir_not_exist w0 then MkdirAll w0 else (None, w0)) of
             (Some err, w1) \<Rightarrow> (Failed (Wrapped ''failed to create config directory: '' err), w1)
           | (None, w1) \<Rightarrow>
               if file_not_exist w1 then
                 prompt_and_save emptyConfig
                   (emit (Print (''Configuration file not found. Creating a new one...'' @ [NL])) w1)
               else
                 (case Open w1 of
                    Inl err \<Rightarrow> (Failed (Wrapped ''failed to open config file: '' err), w1)
                  | Inr content \<Rightarrow>
                      (case Decode content emptyConfig of
                         Inl err \<Rightarrow> (Failed (Wrapped ''failed to parse config file: '' err), w1)
                       | Inr config \<Rightarrow>
                           if incomplete config then
                             prompt_and_save config
                               (emit (Print (''Configuration file is incomplete. Prompting for missing values...'' @ [NL])) w1)
                           else (Loaded config, w1)))))"

text \<open>\<^verbatim>\<open>main\<close>: the exit status and the final world, or \<open>None\<close> when the posting loop
  never ends.\<close>

definition main :: "world \<Rightarrow> (nat \<times> world) option" where
  "main w =
     (case loadOrCreateConfig w of
        (Exited n, w1) \<Rightarrow> Some (n, w1)
      | (Failed err, w1) \<Rightarrow> Some (0, emit (PrintErr ''Error loading configuration:'' err) w1)
      | (Loaded config, w1) \<Rightarrow>
          (let w2 = Setenv ''GOTWI_API_KEY'' (ConsumerKey config) w1;
               w3 = Setenv ''GOTWI_API_KEY_SECRET'' (ConsumerSecret config) w2
           in case newClient w3 config of
                Some err \<Rightarrow> Some (0, emit (PrintErr ''Error creating client:'' err) w3)
              | None \<Rightarrow> map_option (Pair 0) (posting_loop w3)))"

section \<open>Properties of the posting loop\<close>

text \<open>A world with nothing in it and no faults, for concrete runs.\<close>

definition quiet_world :: world where
  "quiet_world =
     \<lparr>home_fault = None, fs = NoDir, stat_dir_fault = None, stat_file_fault = None,
      mkdir_fault = None, open_fault = None, create_fault = None, write_fault = None,
      stdin = [], readahead = 0, stdout = [], env = Map.empty,
      newClient = (\<lambda>c. None), remote = (\<lambda>n t. Inr ''1''), published = []\<rparr>"

lemma loop_body_read_error:
  "ReadString (stdin w) = ((d, Some e), rest) \<Longrightarrow>
   loop_body w = Continue (emit (PrintErr ''Error reading input:'' e)
                             ((emit (Print ''tweet: '') w)\<lparr>stdin := rest\<rparr>))"
  by (simp add: loop_body_def Let_def emit_def)

lemma loop_body_sentinel:
  "ReadString (stdin w) = ((line, None), rest) \<Longrightarrow>
   TrimSpace line = ''exit'' \<or> TrimSpace line = ''quit'' \<Longrightarrow>
   loop_body w = Break (emit (Print (''Goodbye!'' @ [NL])) ((emit (Print ''tweet: '') w)\<lparr>stdin := rest\<rparr>))"
  by (auto simp add: loop_body_def Let_def emit_def)

lemma loop_body_publish:
  "ReadString (stdin w) = ((line, None), rest) \<Longrightarrow>
   TrimSpace line \<noteq> ''exit'' \<Longrightarrow> TrimSpace line \<noteq> ''quit'' \<Longrightarrow>
   loop_body w =
     Continue
       (emit (case remote w (length (published w)) (TrimSpace line) of
                Inl err \<Rightarrow> PrintErr ''Error posting tweet:'' err
              | Inr ID \<Rightarrow> Print (''Tweet posted successfully! [ID: '' @ ID @ '']'' @ [NL, NL]))
          ((emit (Print ''tweet: '') w)\<lparr>stdin := rest, published := published w @ [TrimSpace line]\<rparr>))"
  by (auto simp add: loop_body_def Let_def emit_def split: sum.splits)

text \<open>
  C1. When the next line read trims to exactly \<open>exit\<close> or \<open>quit\<close>, the loop prints the
  prompt and \<open>Goodbye!\<close>, returns, and makes no publish call for that line. In particular,
  on the input \<open>hello\<close>, \<open>exit\<close> it makes exactly one publish call, with \<open>hello\<close>, whatever
  the remote service answers, and then returns after \<open>Goodbye!\<close>.
\<close>

theorem sentinel_terminates:
  "(ReadString (stdin w) = ((line, None), rest) \<and> (TrimSpace line = ''exit'' \<or> TrimSpace line = ''quit'')
     \<longrightarrow> (\<exists>w'. posting_loop w = Some w' \<and> published w' = published w \<and> stdin w' = rest
               \<and> stdout w' = stdout w @ [Print ''tweet: '', Print (''Goodbye!'' @ [NL])]))
   \<and> (stdin w = bytes (''hello'' @ [NL] @ ''exit'' @ [NL])
     \<longrightarrow> (\<exists>w' reply. posting_loop w = Some w' \<and> published w' = published w @ [''hello'']
               \<and> stdin w' = []
               \<and> stdout w' = stdout w @ [Print ''tweet: '', reply, Print ''tweet: '', Print (''Goodbye!'' @ [NL])]))"
proof (intro conjI impI)
  assume a: "ReadString (stdin w) = ((line, None), rest) \<and> (TrimSpace line = ''exit'' \<or> TrimSpace line = ''quit'')"
  then have "loop_body w = Break (emit (Print (''Goodbye!'' @ [NL])) ((emit (Print ''tweet: '') w)\<lparr>stdin := rest\<rparr>))"
    by (intro loop_body_sentinel) auto
  then have "posting_loop w = Some (emit (Print (''Goodbye!'' @ [NL])) ((emit (Print ''tweet: '') w)\<lparr>stdin := rest\<rparr>))"
    by (subst posting_loop.simps) simp
  then show "\<exists>w'. posting_loop w = Some w' \<and> published w' = published w \<and> stdin w' = rest
               \<and> stdout w' = stdout w @ [Print ''tweet: '', Print (''Goodbye!'' @ [NL])]"
    by (simp add: emit_def)
next
  assume a: "stdin w = bytes (''hello'' @ [NL] @ ''exit'' @ [NL])"
  define reply where "reply = (case remote w (length (published w)) ''hello'' of
                Inl err \<Rightarrow> PrintErr ''Error posting tweet:'' err
              | Inr ID \<Rightarrow> Print (''Tweet posted successfully! [ID: '' @ ID @ '']'' @ [NL, NL]))"
  define w1 where "w1 = emit reply ((emit (Print ''tweet: '') w)\<lparr>stdin := bytes (''exit'' @ [NL]), published := published w @ [''hello'']\<rparr>)"
  have r1: "ReadString (stdin w) = ((''hello'' @ [NL], None), bytes (''exit'' @ [NL]))"
    by (simp add: a bytes_def)
  have t1: "TrimSpace (''hello'' @ [NL]) = ''hello''"
    by (simp add: TrimSpace_def asciiSpace_def)
  have "loop_body w = Continue w1"
    using loop_body_publish [OF r1] by (simp add: t1 [simplified] w1_def reply_def)
  then have s1: "posting_loop w = posting_loop w1"
    by (subst posting_loop.simps) simp
  have r2: "ReadString (stdin w1) = ((''exit'' @ [NL], None), [])"
    by (simp add: w1_def emit_def bytes_def)
  have t2: "TrimSpace (''exit'' @ [NL]) = ''exit''"
    by (simp add: TrimSpace_def asciiSpace_def)
  have "loop_body w1 = Break (emit (Print (''Goodbye!'' @ [NL])) ((emit (Print ''tweet: '') w1)\<lparr>stdin := []\<rparr>))"
    by (rule loop_body_sentinel [OF r2]) (simp add: t2 [simplified])
  then have "posting_loop w1 = Some (emit (Print (''Goodbye!'' @ [NL])) ((emit (Print ''tweet: '') w1)\<lparr>stdin := []\<rparr>))"
    by (subst posting_loop.simps) simp
  with s1 show "\<exists>w' reply. posting_loop w = Some w' \<and> published w' = published w @ [''hello'']
               \<and> stdin w' = []
               \<and> stdout w' = stdout w @ [Print ''tweet: '', reply, Print ''tweet: '', Print (''Goodbye!'' @ [NL])]"
    by (simp add: w1_def emit_def)
qed

theorem sentinel_terminates_witness:
  "(\<exists>w'. posting_loop (quiet_world\<lparr>stdin := bytes (''quit'' @ [NL] @ ''later'' @ [NL])\<rparr>) = Some w'
       \<and> published w' = [] \<and> stdin w' = bytes (''later'' @ [NL])
       \<and> stdout w' = [Print ''tweet: '', Print (''Goodbye!'' @ [NL])])
   \<and> (\<exists>w' reply. posting_loop (quiet_world\<lparr>stdin := bytes (''hello'' @ [NL] @ ''exit'' @ [NL])\<rparr>) = Some w'
       \<and> published w' = [''hello''] \<and> stdin w' = []
       \<and> stdout w' = [Print ''tweet: '', reply, Print ''tweet: '', Print (''Goodbye!'' @ [NL])])"
proof -
  have r: "ReadString (stdin (quiet_world\<lparr>stdin := bytes (''quit'' @ [NL] @ ''later'' @ [NL])\<rparr>))
      = ((''quit'' @ [NL], None), bytes (''later'' @ [NL]))"
    by (simp add: bytes_def)
  have t: "TrimSpace (''quit'' @ [NL]) = ''quit''"
    by (simp add: TrimSpace_def asciiSpace_def)
  show ?thesis
    using sentinel_terminates [of "quiet_world\<lparr>stdin := bytes (''quit'' @ [NL] @ ''later'' @ [NL])\<rparr>"
        "''quit'' @ [NL]" "bytes (''later'' @ [NL])"]
      sentinel_terminates [of "quiet_world\<lparr>stdin := bytes (''hello'' @ [NL] @ ''exit'' @ [NL])\<rparr>"]
      r t [simplified]
    by (simp add: quiet_world_def)
qed

text \<open>
  C7. An iteration whose read fails prints the prompt and the read error, makes no publish
  call and goes on with the next iteration; an iteration whose publish call fails prints the
  prompt and the publish error, has made that one call and goes on with the next iteration
  on the input that follows. Every iteration starts by printing the prompt \<open>tweet: \<close>.
\<close>

theorem loop_errors_not_fatal:
  "(ReadString (stdin w) = ((d, Some e), rest) \<longrightarrow>
      (\<exists>w'. loop_body w = Continue w' \<and> posting_loop w = posting_loop w' \<and> stdin w' = rest
          \<and> published w' = published w
          \<and> stdout w' = stdout w @ [Print ''tweet: '', PrintErr ''Error reading input:'' e]))
   \<and> (ReadString (stdin w) = ((line, None), rest) \<and> TrimSpace line \<noteq> ''exit''
        \<and> TrimSpace line \<noteq> ''quit'' \<and> remote w (length (published w)) (TrimSpace line) = Inl e \<longrightarrow>
      (\<exists>w'. loop_body w = Continue w' \<and> posting_loop w = posting_loop w' \<and> stdin w' = rest
          \<and> published w' = published w @ [TrimSpace line]
          \<and> stdout w' = stdout w @ [Print ''tweet: '', PrintErr ''Error posting tweet:'' e]))
   \<and> (\<exists>w' more. (loop_body w = Continue w' \<or> loop_body w = Break w')
          \<and> stdout w' = stdout w @ Print ''tweet: '' # more)"
proof (intro conjI impI)
  assume a: "ReadString (stdin w) = ((d, Some e), rest)"
  have b: "loop_body w = Continue (emit (PrintErr ''Error reading input:'' e)
                             ((emit (Print ''tweet: '') w)\<lparr>stdin := rest\<rparr>))"
    by (rule loop_body_read_error [OF a])
  then have "posting_loop w = posting_loop (emit (PrintErr ''Error reading input:'' e)
                             ((emit (Print ''tweet: '') w)\<lparr>stdin := rest\<rparr>))"
    by (subst posting_loop.simps) simp
  with b show "\<exists>w'. loop_body w = Continue w' \<and> posting_loop w = posting_loop w' \<and> stdin w' = rest
          \<and> published w' = published w
          \<and> stdout w' = stdout w @ [Print ''tweet: '', PrintErr ''Error reading input:'' e]"
    by (simp add: emit_def)
next
  assume a: "ReadString (stdin w) = ((line, None), rest) \<and> TrimSpace line \<noteq> ''exit''
        \<and> TrimSpace line \<noteq> ''quit'' \<and> remote w (length (published w)) (TrimSpace line) = Inl e"
  then have b: "loop_body w = Continue (emit (PrintErr ''Error posting tweet:'' e)
          ((emit (Print ''tweet: '') w)\<lparr>stdin := rest, published := published w @ [TrimSpace line]\<rparr>))"
    using loop_body_publish [of w line rest] by simp
  then have "posting_loop w = posting_loop (emit (PrintErr ''Error posting tweet:'' e)
          ((emit (Print ''tweet: '') w)\<lparr>stdin := rest, published := published w @ [TrimSpace line]\<rparr>))"
    by (subst posting_loop.simps) simp
  with b show "\<exists>w'. loop_body w = Continue w' \<and> posting_loop w = posting_loop w' \<and> stdin w' = rest
          \<and> published w' = published w @ [TrimSpace line]
          \<and> stdout w' = stdout w @ [Print ''tweet: '', PrintErr ''Error posting tweet:'' e]"
    by (simp add: emit_def)
next
  show "\<exists>w' more. (loop_body w = Continue w' \<or> loop_body w = Break w')
          \<and> stdout w' = stdout w @ Print ''tweet: '' # more"
    by (auto simp add: loop_body_def Let_def emit_def split: prod.splits option.splits sum.splits)
qed

theorem loop_errors_not_fatal_witness:
  "(\<exists>w'. loop_body (quiet_world\<lparr>stdin := ReadFault (OSError ''input/output error'') # bytes (''hi'' @ [NL])\<rparr>)
            = Continue w'
        \<and> posting_loop (quiet_world\<lparr>stdin := ReadFault (OSError ''input/output error'') # bytes (''hi'' @ [NL])\<rparr>)
            = posting_loop w'
        \<and> stdin w' = bytes (''hi'' @ [NL]) \<and> published w' = []
        \<and> stdout w' = [Print ''tweet: '', PrintErr ''Error reading input:'' (OSError ''input/output error'')])
   \<and> (\<exists>w'. loop_body (quiet_world\<lparr>stdin := bytes (''hi'' @ [NL] @ ''exit'' @ [NL]),
                                   remote := (\<lambda>n t. Inl (RemoteError ''forbidden''))\<rparr>) = Continue w'
        \<and> posting_loop (quiet_world\<lparr>stdin := bytes (''hi'' @ [NL] @ ''exit'' @ [NL]),
                                   remote := (\<lambda>n t. Inl (RemoteError ''forbidden''))\<rparr>) = posting_loop w'
        \<and> stdin w' = bytes (''exit'' @ [NL]) \<and> published w' = [''hi'']
        \<and> stdout w' = [Print ''tweet: '', PrintErr ''Error posting tweet:'' (RemoteError ''forbidden'')])"
proof -
  have t: "TrimSpace (''hi'' @ [NL]) = ''hi''"
    by (simp add: TrimSpace_def asciiSpace_def)
  show ?thesis
    using loop_errors_not_fatal [of "quiet_world\<lparr>stdin := ReadFault (OSError ''input/output error'') # bytes (''hi'' @ [NL])\<rparr>"
        "[]" "OSError ''input/output error''" "bytes (''hi'' @ [NL])"]
      loop_errors_not_fatal [of "quiet_world\<lparr>stdin := bytes (''hi'' @ [NL] @ ''exit'' @ [NL]),
                                   remote := (\<lambda>n t. Inl (RemoteError ''forbidden''))\<rparr>"
        _ "RemoteError ''forbidden''" "bytes (''exit'' @ [NL])" "''hi'' @ [NL]"]
      t [simplified]
    by (simp add: quiet_world_def bytes_def)
qed

text \<open>
  C8. A line that trims to the empty string is published: the iteration makes a publish
  call with the empty text and prints what the remote service answers to it.
\<close>

theorem empty_text_is_published:
  "ReadString (stdin w) = ((line, None), rest) \<Longrightarrow> TrimSpace line = [] \<Longrightarrow>
   \<exists>w'. loop_body w = Continue w' \<and> published w' = published w @ [[]]
     \<and> stdout w' = stdout w @
          [Print ''tweet: '',
           (case remote w (length (published w)) [] of
              Inl err \<Rightarrow> PrintErr ''Error posting tweet:'' err
            | Inr ID \<Rightarrow> Print (''Tweet posted successfully! [ID: '' @ ID @ '']'' @ [NL, NL]))]"
  using loop_body_publish [of w line rest] by (simp add: emit_def)

theorem empty_text_is_published_witness:
  "ReadString (stdin (quiet_world\<lparr>stdin := bytes (''  '' @ [NL])\<rparr>)) = ((''  '' @ [NL], None), [])
   \<and> TrimSpace (''  '' @ [NL]) = []
   \<and> (\<exists>w'. loop_body (quiet_world\<lparr>stdin := bytes (''  '' @ [NL])\<rparr>) = Continue w'
        \<and> published w' = [[]]
        \<and> stdout w' = [Print ''tweet: '', Print (''Tweet posted successfully! [ID: 1]'' @ [NL, NL])])"
proof -
  have r: "ReadString (stdin (quiet_world\<lparr>stdin := bytes (''  '' @ [NL])\<rparr>)) = ((''  '' @ [NL], None), [])"
    by (simp add: bytes_def)
  have t: "TrimSpace (''  '' @ [NL]) = []"
    by (simp add: TrimSpace_def asciiSpace_def)
  show ?thesis
    using empty_text_is_published [OF r t] r t by (simp add: quiet_world_def)
qed

section \<open>Properties of the credential prompts\<close>

text \<open>The prompts for the empty fields of a record, in the fixed order of the four
  fields: what the specification expects the prompting to print.\<close>

definition missing_prompts :: "Config \<Rightarrow> printed list" where
  "missing_prompts c =
     (if ConsumerKey c = [] then [Print ''Enter Consumer Key: ''] else [])
     @ (if ConsumerSecret c = [] then [Print ''Enter Consumer Secret: ''] else [])
     @ (if AccessToken c = [] then [Print ''Enter Access Token: ''] else [])
     @ (if AccessSecret c = [] then [Print ''Enter Access Secret: ''] else [])"

lemma prompt_line_eq:
  "prompt_line label w =
     (TrimSpace (fst (fst (ReadString (stdin w)))),
      w\<lparr>stdout := stdout w @ [Print label], stdin := snd (ReadString (stdin w))\<rparr>)"
  by (simp add: prompt_line_def emit_def split: prod.splits)

lemma ReadString_fault:
  "NL \<notin> set d \<Longrightarrow> ReadString (bytes d @ ReadFault e # rest) = ((d, Some e), rest)"
  by (induction d) (auto simp add: bytes_def)

lemma ReadString_end:
  "NL \<notin> set d \<Longrightarrow> ReadString (bytes d) = ((d, Some EOF), [])"
  by (induction d) (auto simp add: bytes_def)

text \<open>The input left for the reader of \<open>promptForConfigValues\<close> when it comes to the
  consumer secret, the access token and the access secret, and when it is done.\<close>

definition stdin_at_secret :: "Config \<Rightarrow> stdin_event list \<Rightarrow> stdin_event list" where
  "stdin_at_secret c i = (if ConsumerKey c = [] then snd (ReadString i) else i)"

definition stdin_at_token :: "Config \<Rightarrow> stdin_event list \<Rightarrow> stdin_event list" where
  "stdin_at_token c i =
     (if ConsumerSecret c = [] then snd (ReadString (stdin_at_secret c i)) else stdin_at_secret c i)"

definition stdin_at_access_secret :: "Config \<Rightarrow> stdin_event list \<Rightarrow> stdin_event list" where
  "stdin_at_access_secret c i =
     (if AccessToken c = [] then snd (ReadString (stdin_at_token c i)) else stdin_at_token c i)"

definition stdin_at_end :: "Config \<Rightarrow> stdin_event list \<Rightarrow> stdin_event list" where
  "stdin_at_end c i =
     (if AccessSecret c = [] then snd (ReadString (stdin_at_access_secret c i))
      else stdin_at_access_secret c i)"

lemma ask_ConsumerKey_eq:
  "ask_ConsumerKey (c, w) =
     (c\<lparr>ConsumerKey :=
          (if ConsumerKey c = [] then TrimSpace (fst (fst (ReadString (stdin w))))
           else ConsumerKey c)\<rparr>,
      w\<lparr>stdout := stdout w @ (if ConsumerKey c = [] then [Print ''Enter Consumer Key: ''] else []),
        stdin := (if ConsumerKey c = [] then snd (ReadString (stdin w)) else stdin w)\<rparr>)"
  by (cases c; cases w) (simp add: ask_ConsumerKey_def prompt_line_eq)

lemma ask_ConsumerSecret_eq:
  "ask_ConsumerSecret (c, w) =
     (c\<lparr>ConsumerSecret :=
          (if ConsumerSecret c = [] then TrimSpace (fst (fst (ReadString (stdin w))))
           else ConsumerSecret c)\<rparr>,
      w\<lparr>stdout := stdout w @ (if ConsumerSecret c = [] then [Print ''Enter Consumer Secret: ''] else []),
        stdin := (if ConsumerSecret c = [] then snd (ReadString (stdin w)) else stdin w)\<rparr>)"
  by (cases c; cases w) (simp add: ask_ConsumerSecret_def prompt_line_eq)

lemma ask_AccessToken_eq:
  "ask_AccessToken (c, w) =
     (c\<lparr>AccessToken :=
          (if AccessToken c = [] then TrimSpace (fst (fst (ReadString (stdin w))))
           else AccessToken c)\<rparr>,
      w\<lparr>stdout := stdout w @ (if AccessToken c = [] then [Print ''Enter Access Token: ''] else []),
        stdin := (if AccessToken c = [] then snd (ReadString (stdin w)) else stdin w)\<rparr>)"
  by (cases c; cases w) (simp add: ask_AccessToken_def prompt_line_eq)

lemma ask_AccessSecret_eq:
  "ask_AccessSecret (c, w) =
     (c\<lparr>AccessSecret :=
          (if AccessSecret c = [] then TrimSpace (fst (fst (ReadString (stdin w))))
           else AccessSecret c)\<rparr>,
      w\<lparr>stdout := stdout w @ (if AccessSecret c = [] then [Print ''Enter Access Secret: ''] else []),
        stdin := (if AccessSecret c = [] then snd (ReadString (stdin w)) else stdin w)\<rparr>)"
  by (cases c; cases w) (simp add: ask_AccessSecret_def prompt_line_eq)

text \<open>The function in closed form: the record and the world it returns.\<close>

lemma promptForConfigValues_eq:
  "promptForConfigValues c w =
     (None,
      \<lparr>ConsumerKey =
         (if ConsumerKey c = [] then TrimSpace (fst (fst (ReadString (stdin w))))
          else ConsumerKey c),
       ConsumerSecret =
         (if ConsumerSecret c = []
          then TrimSpace (fst (fst (ReadString (stdin_at_secret c (stdin w)))))
          else ConsumerSecret c),
       AccessToken =
         (if AccessToken c = []
          then TrimSpace (fst (fst (ReadString (stdin_at_token c (stdin w)))))
          else AccessToken c),
       AccessSecret =
         (if AccessSecret c = []
          then TrimSpace (fst (fst (ReadString (stdin_at_access_secret c (stdin w)))))
          else AccessSecret c)\<rparr>,
      w\<lparr>stdout := stdout w @ missing_prompts c,
        stdin := (if stdin_at_end c (stdin w) = stdin w then stdin w
                  else drop (readahead w) (stdin_at_end c (stdin w)))\<rparr>)"
  by (cases c)
    (simp add: promptForConfigValues_def ask_ConsumerKey_eq ask_ConsumerSecret_eq
      ask_AccessToken_eq ask_AccessSecret_eq discard_reader_def missing_prompts_def
      stdin_at_secret_def stdin_at_token_def stdin_at_access_secret_def stdin_at_end_def
      split del: if_split cong: if_cong)

lemma prompt_stdout:
  "stdout (snd (snd (promptForConfigValues config w))) = stdout w @ missing_prompts config"
  by (simp add: promptForConfigValues_eq)

lemma prompt_fs: "fs (snd (snd (promptForConfigValues config w))) = fs w"
  by (simp add: promptForConfigValues_eq)

lemma prompt_no_error: "fst (promptForConfigValues config w) = None"
  by (simp add: promptForConfigValues_eq)

lemma prompt_keeps:
  "ConsumerKey config \<noteq> [] \<Longrightarrow> ConsumerKey (fst (snd (promptForConfigValues config w))) = ConsumerKey config"
  "ConsumerSecret config \<noteq> [] \<Longrightarrow> ConsumerSecret (fst (snd (promptForConfigValues config w))) = ConsumerSecret config"
  "AccessToken config \<noteq> [] \<Longrightarrow> AccessToken (fst (snd (promptForConfigValues config w))) = AccessToken config"
  "AccessSecret config \<noteq> [] \<Longrightarrow> AccessSecret (fst (snd (promptForConfigValues config w))) = AccessSecret config"
  by (simp_all add: promptForConfigValues_eq)

lemma prompt_assigns:
  "ConsumerKey config = [] \<Longrightarrow>
     ConsumerKey (fst (snd (promptForConfigValues config w)))
       = TrimSpace (fst (fst (ReadString (stdin w))))"
  "ConsumerSecret config = [] \<Longrightarrow>
     ConsumerSecret (fst (snd (promptForConfigValues config w)))
       = TrimSpace (fst (fst (ReadString (stdin_at_secret config (stdin w)))))"
  "AccessToken config = [] \<Longrightarrow>
     AccessToken (fst (snd (promptForConfigValues config w)))
       = TrimSpace (fst (fst (ReadString (stdin_at_token config (stdin w)))))"
  "AccessSecret config = [] \<Longrightarrow>
     AccessSecret (fst (snd (promptForConfigValues config w)))
       = TrimSpace (fst (fst (ReadString (stdin_at_access_secret config (stdin w)))))"
  by (simp_all add: promptForConfigValues_eq)

lemma saveConfig_stdout: "saveConfig c w = (r, w') \<Longrightarrow> stdout w' = stdout w"
  by (auto simp add: saveConfig_def Create_def Encode_def
      split: prod.splits option.splits fs_state.splits)

text \<open>
  C2. The prompting prints exactly the prompts of the empty fields, in the order consumer
  key, consumer secret, access token, access secret, and leaves every populated field as
  it is. So does \<open>loadOrCreateConfig\<close> on a file that decodes to an incomplete record,
  after its notice.
\<close>

theorem prompts_exactly_missing_fields:
  "stdout (snd (snd (promptForConfigValues config w))) = stdout w @ missing_prompts config
   \<and> (ConsumerKey config \<noteq> [] \<longrightarrow>
        ConsumerKey (fst (snd (promptForConfigValues config w))) = ConsumerKey config)
   \<and> (ConsumerSecret config \<noteq> [] \<longrightarrow>
        ConsumerSecret (fst (snd (promptForConfigValues config w))) = ConsumerSecret config)
   \<and> (AccessToken config \<noteq> [] \<longrightarrow>
        AccessToken (fst (snd (promptForConfigValues config w))) = AccessToken config)
   \<and> (AccessSecret config \<noteq> [] \<longrightarrow>
        AccessSecret (fst (snd (promptForConfigValues config w))) = AccessSecret config)
   \<and> (home_fault w = None \<and> fs w = File content \<and> open_fault w = None
        \<and> Decode content emptyConfig = Inr config \<and> incomplete config \<longrightarrow>
        stdout (snd (loadOrCreateConfig w))
          = stdout w
            @ [Print (''Configuration file is incomplete. Prompting for missing values...'' @ [NL])]
            @ missing_prompts config)"
proof (intro conjI impI)
  assume a: "home_fault w = None \<and> fs w = File content \<and> open_fault w = None
        \<and> Decode content emptyConfig = Inr config \<and> incomplete config"
  define w1 where "w1 = emit (Print (''Configuration file is incomplete. Prompting for missing values...'' @ [NL])) w"
  have l: "loadOrCreateConfig w = prompt_and_save config w1"
    using a by (simp add: loadOrCreateConfig_def getConfigFilePath_def dir_not_exist_def
        file_not_exist_def Open_def w1_def)
  have "stdout (snd (prompt_and_save config w1)) = stdout (snd (snd (promptForConfigValues config w1)))"
    by (simp add: prompt_and_save_def saveConfig_stdout split: prod.splits option.splits)
  then show "stdout (snd (loadOrCreateConfig w))
          = stdout w
            @ [Print (''Configuration file is incomplete. Prompting for missing values...'' @ [NL])]
            @ missing_prompts config"
    by (simp add: l prompt_stdout) (simp add: w1_def emit_def)
qed (simp_all add: prompt_stdout prompt_keeps)


lemmas json_eval = Decode_def unmarshal_def find_field_def field_name_def set_field_def
  json_value.simps json_members.simps json_elements.simps string_lit.simps isSpace_def
  is_digit_def number_def number_frac_def number_exp_def maxNestingDepth_def simple_escape_def
  emptyConfig_def hexval_def is_surrogate_def utf16_DecodeRune_def EncodeRune_def
  char_of_def bit_0 foldName.simps foldRune_def

lemmas enc_eval = encode_Config_def member_line_def quote_def appendString.simps htmlSafeSet_def
  escape_ascii_def hex_def

theorem prompts_exactly_missing_fields_witness:
  "stdout (snd (snd (promptForConfigValues
       \<lparr>ConsumerKey = ''k'', ConsumerSecret = [], AccessToken = ''t'', AccessSecret = []\<rparr>
       (quiet_world\<lparr>stdin := bytes (''s'' @ [NL] @ ''a'' @ [NL])\<rparr>))))
     = [Print ''Enter Consumer Secret: '', Print ''Enter Access Secret: '']
   \<and> ConsumerKey (fst (snd (promptForConfigValues
       \<lparr>ConsumerKey = ''k'', ConsumerSecret = [], AccessToken = ''t'', AccessSecret = []\<rparr>
       (quiet_world\<lparr>stdin := bytes (''s'' @ [NL] @ ''a'' @ [NL])\<rparr>)))) = ''k''
   \<and> AccessToken (fst (snd (promptForConfigValues
       \<lparr>ConsumerKey = ''k'', ConsumerSecret = [], AccessToken = ''t'', AccessSecret = []\<rparr>
       (quiet_world\<lparr>stdin := bytes (''s'' @ [NL] @ ''a'' @ [NL])\<rparr>)))) = ''t''
   \<and> Decode (''{'' @ quote ''consumer_key'' @ '':'' @ quote ''k'' @ '','' @ quote ''access_token''
               @ '':'' @ quote ''t'' @ ''}'') emptyConfig
       = Inr \<lparr>ConsumerKey = ''k'', ConsumerSecret = [], AccessToken = ''t'', AccessSecret = []\<rparr>
   \<and> stdout (snd (loadOrCreateConfig
       (quiet_world\<lparr>fs := File (''{'' @ quote ''consumer_key'' @ '':'' @ quote ''k'' @ '',''
                                   @ quote ''access_token'' @ '':'' @ quote ''t'' @ ''}''),
                     stdin := bytes (''s'' @ [NL] @ ''a'' @ [NL])\<rparr>)))
     = [Print (''Configuration file is incomplete. Prompting for missing values...'' @ [NL]),
        Print ''Enter Consumer Secret: '', Print ''Enter Access Secret: '']"
proof -
  have d: "Decode (''{'' @ quote ''consumer_key'' @ '':'' @ quote ''k'' @ '','' @ quote ''access_token''
               @ '':'' @ quote ''t'' @ ''}'') emptyConfig
       = Inr \<lparr>ConsumerKey = ''k'', ConsumerSecret = [], AccessToken = ''t'', AccessSecret = []\<rparr>"
    by (simp add: json_eval enc_eval)
  show ?thesis
    using prompts_exactly_missing_fields
      [of "\<lparr>ConsumerKey = ''k'', ConsumerSecret = [], AccessToken = ''t'', AccessSecret = []\<rparr>"
          "quiet_world\<lparr>stdin := bytes (''s'' @ [NL] @ ''a'' @ [NL])\<rparr>"]
      prompts_exactly_missing_fields
      [of "\<lparr>ConsumerKey = ''k'', ConsumerSecret = [], AccessToken = ''t'', AccessSecret = []\<rparr>"
          "quiet_world\<lparr>fs := File (''{'' @ quote ''consumer_key'' @ '':'' @ quote ''k'' @ '',''
                                   @ quote ''access_token'' @ '':'' @ quote ''t'' @ ''}''),
                     stdin := bytes (''s'' @ [NL] @ ''a'' @ [NL])\<rparr>"
          "''{'' @ quote ''consumer_key'' @ '':'' @ quote ''k'' @ '','' @ quote ''access_token''
               @ '':'' @ quote ''t'' @ ''}''"]
      d
    by (simp add: quiet_world_def missing_prompts_def incomplete_def)
qed

text \<open>
  C9. \<open>promptForConfigValues\<close> returns no error, whatever standard input delivers. Each
  empty field is assigned the trimmed text that its read returned, with or without an
  error: after a read error or at the end of the input that text is what was read before
  (\<open>ReadString_fault\<close>, \<open>ReadString_end\<close>), possibly nothing.
\<close>

theorem prompting_never_fails:
  "fst (promptForConfigValues config w) = None
   \<and> (ConsumerKey config = [] \<longrightarrow>
        ConsumerKey (fst (snd (promptForConfigValues config w)))
          = TrimSpace (fst (fst (ReadString (stdin w)))))
   \<and> (ConsumerSecret config = [] \<longrightarrow>
        ConsumerSecret (fst (snd (promptForConfigValues config w)))
          = TrimSpace (fst (fst (ReadString (stdin_at_secret config (stdin w))))))
   \<and> (AccessToken config = [] \<longrightarrow>
        AccessToken (fst (snd (promptForConfigValues config w)))
          = TrimSpace (fst (fst (ReadString (stdin_at_token config (stdin w))))))
   \<and> (AccessSecret config = [] \<longrightarrow>
        AccessSecret (fst (snd (promptForConfigValues config w)))
          = TrimSpace (fst (fst (ReadString (stdin_at_access_secret config (stdin w))))))
   \<and> (NL \<notin> set d \<longrightarrow>
        ReadString (bytes d @ ReadFault e # rest) = ((d, Some e), rest)
        \<and> ReadString (bytes d) = ((d, Some EOF), []))"
  by (simp add: prompt_no_error prompt_assigns ReadString_fault ReadString_end)

theorem prompting_never_fails_witness:
  "promptForConfigValues emptyConfig
     (quiet_world\<lparr>stdin := bytes '' ab '' @ ReadFault (OSError ''input/output error'') # bytes ''cd''\<rparr>)
   = (None,
      \<lparr>ConsumerKey = ''ab'', ConsumerSecret = ''cd'', AccessToken = [], AccessSecret = []\<rparr>,
      quiet_world\<lparr>stdout := [Print ''Enter Consumer Key: '', Print ''Enter Consumer Secret: '',
                               Print ''Enter Access Token: '', Print ''Enter Access Secret: '']\<rparr>)"
proof -
  let ?w = "quiet_world\<lparr>stdin := bytes '' ab '' @ ReadFault (OSError ''input/output error'') # bytes ''cd''\<rparr>"
  let ?r = "promptForConfigValues emptyConfig ?w"
  have n: "NL \<notin> set '' ab ''" "NL \<notin> set ''cd''" by simp_all
  have r1: "ReadString (stdin ?w) = (('' ab '', Some (OSError ''input/output error'')), bytes ''cd'')"
    using prompting_never_fails [of emptyConfig ?w "'' ab ''" "OSError ''input/output error''" "bytes ''cd''"] n
    by simp
  have r2: "ReadString (bytes ''cd'') = ((''cd'', Some EOF), [])"
    using prompting_never_fails [of emptyConfig ?w "''cd''"] n by simp
  have r3: "ReadString [] = (([], Some EOF), [])" by simp
  have t: "TrimSpace '' ab '' = ''ab''" "TrimSpace ''cd'' = ''cd''" "TrimSpace [] = []"
    by (simp_all add: TrimSpace_def asciiSpace_def)
  have f: "fst ?r = None" "ConsumerKey (fst (snd ?r)) = ''ab''" "ConsumerSecret (fst (snd ?r)) = ''cd''"
    "AccessToken (fst (snd ?r)) = []" "AccessSecret (fst (snd ?r)) = []"
    using prompting_never_fails [of emptyConfig ?w] r1 r2 t
    by (simp_all add: emptyConfig_def stdin_at_secret_def stdin_at_token_def stdin_at_access_secret_def)
  have w: "snd (snd ?r) = quiet_world\<lparr>stdout := [Print ''Enter Consumer Key: '', Print ''Enter Consumer Secret: '',
                               Print ''Enter Access Token: '', Print ''Enter Access Secret: '']\<rparr>"
    using r1 r2
    by (simp add: promptForConfigValues_eq emptyConfig_def missing_prompts_def stdin_at_secret_def
        stdin_at_token_def stdin_at_access_secret_def stdin_at_end_def quiet_world_def)
  show ?thesis
    using f w by (cases ?r) (simp add: Config.equality)
qed

section \<open>Properties of loadOrCreateConfig\<close>

lemma saveConfig_ok:
  "create_fault w = None \<Longrightarrow> write_fault w = None \<Longrightarrow> fs w \<noteq> NoDir \<Longrightarrow>
   saveConfig c w = (None, w\<lparr>fs := File (encode_Config c)\<rparr>)"
  by (simp add: saveConfig_def Create_def Encode_def split: fs_state.splits)

lemma prompt_and_save_ok:
  assumes "create_fault w = None" "write_fault w = None" "fs w \<noteq> NoDir"
  shows "prompt_and_save c w =
     (Loaded (fst (snd (promptForConfigValues c w))),
      (snd (snd (promptForConfigValues c w)))
        \<lparr>fs := File (encode_Config (fst (snd (promptForConfigValues c w))))\<rparr>)"
proof -
  have "saveConfig (fst (snd (promptForConfigValues c w))) (snd (snd (promptForConfigValues c w)))
      = (None, (snd (snd (promptForConfigValues c w)))
        \<lparr>fs := File (encode_Config (fst (snd (promptForConfigValues c w))))\<rparr>)"
    by (rule saveConfig_ok) (simp_all add: promptForConfigValues_eq assms)
  then show ?thesis
    using prompt_no_error [of c w]
    by (cases "promptForConfigValues c w") (simp add: prompt_and_save_def)
qed

lemma prompt_and_save_Loaded:
  "prompt_and_save c w = (Loaded c', w') \<Longrightarrow> c' = fst (snd (promptForConfigValues c w))"
  by (auto simp add: prompt_and_save_def split: prod.splits option.splits)

lemma fs_update_same: "fs w = x \<Longrightarrow> w\<lparr>fs := x\<rparr> = w"
  by (cases w) simp

lemma load_missing:
  "home_fault w = None \<Longrightarrow> stat_dir_fault w = None \<Longrightarrow> stat_file_fault w = None \<Longrightarrow>
   mkdir_fault w = None \<Longrightarrow> fs w = NoDir \<or> fs w = NoFile \<Longrightarrow>
   loadOrCreateConfig w =
     prompt_and_save emptyConfig
       (emit (Print (''Configuration file not found. Creating a new one...'' @ [NL]))
          (w\<lparr>fs := NoFile\<rparr>))"
  by (auto simp add: loadOrCreateConfig_def getConfigFilePath_def dir_not_exist_def
      file_not_exist_def MkdirAll_def fs_update_same)

lemma load_present:
  "home_fault w = None \<Longrightarrow> fs w = File content \<Longrightarrow> open_fault w = None \<Longrightarrow>
   loadOrCreateConfig w =
     (case Decode content emptyConfig of
        Inl err \<Rightarrow> (Failed (Wrapped ''failed to parse config file: '' err), w)
      | Inr config \<Rightarrow>
          if incomplete config then
            prompt_and_save config
              (emit (Print (''Configuration file is incomplete. Prompting for missing values...'' @ [NL])) w)
          else (Loaded config, w))"
  by (simp add: loadOrCreateConfig_def getConfigFilePath_def dir_not_exist_def
      file_not_exist_def Open_def)

text \<open>
  C6. With a file that decodes to a complete record, \<open>loadOrCreateConfig\<close> returns that
  record and leaves the world as it is: nothing is printed, read or written. A second call,
  on the world the first one left, does the same.
\<close>

theorem reload_is_idempotent:
  "home_fault w = None \<Longrightarrow> fs w = File content \<Longrightarrow> open_fault w = None \<Longrightarrow>
   Decode content emptyConfig = Inr config \<Longrightarrow> \<not> incomplete config \<Longrightarrow>
   loadOrCreateConfig w = (Loaded config, w)
   \<and> loadOrCreateConfig (snd (loadOrCreateConfig w)) = (Loaded config, w)"
  by (simp add: load_present)

text \<open>
  C5, as amended. When reading the first JSON value of the file into the record fails,
  \<open>loadOrCreateConfig\<close> returns that error wrapped as a parse error and leaves the world as
  it is (no prompt, no read, no write); \<open>main\<close> prints the error and returns without a
  publish call.
\<close>

theorem malformed_config_fails:
  "home_fault w = None \<Longrightarrow> fs w = File content \<Longrightarrow> open_fault w = None \<Longrightarrow>
   Decode content emptyConfig = Inl e \<Longrightarrow>
   loadOrCreateConfig w = (Failed (Wrapped ''failed to parse config file: '' e), w)
   \<and> main w = Some (0, w\<lparr>stdout := stdout w @
        [PrintErr ''Error loading configuration:'' (Wrapped ''failed to parse config file: '' e)]\<rparr>)"
  by (simp add: load_present main_def emit_def)


definition sample_config :: Config where
  "sample_config =
     \<lparr>ConsumerKey = ''ck'', ConsumerSecret = ''cs'', AccessToken = ''at'', AccessSecret = ''as''\<rparr>"

lemma decode_sample: "Decode (encode_Config sample_config) emptyConfig = Inr sample_config"
  by (simp add: sample_config_def json_eval enc_eval)

theorem reload_is_idempotent_witness:
  "loadOrCreateConfig (quiet_world\<lparr>fs := File (encode_Config sample_config)\<rparr>)
     = (Loaded sample_config, quiet_world\<lparr>fs := File (encode_Config sample_config)\<rparr>)
   \<and> loadOrCreateConfig (snd (loadOrCreateConfig (quiet_world\<lparr>fs := File (encode_Config sample_config)\<rparr>)))
     = (Loaded sample_config, quiet_world\<lparr>fs := File (encode_Config sample_config)\<rparr>)"
proof -
  have a: "home_fault (quiet_world\<lparr>fs := File (encode_Config sample_config)\<rparr>) = None"
    "fs (quiet_world\<lparr>fs := File (encode_Config sample_config)\<rparr>) = File (encode_Config sample_config)"
    "open_fault (quiet_world\<lparr>fs := File (encode_Config sample_config)\<rparr>) = None"
    by (simp_all add: quiet_world_def)
  have b: "\<not> incomplete sample_config"
    by (simp add: incomplete_def sample_config_def)
  show ?thesis
    by (rule reload_is_idempotent [OF a decode_sample b])
qed

theorem malformed_config_fails_witness:
  "Decode ''{'' emptyConfig = Inl ErrUnexpectedEOF
   \<and> loadOrCreateConfig (quiet_world\<lparr>fs := File ''{''\<rparr>)
       = (Failed (Wrapped ''failed to parse config file: '' ErrUnexpectedEOF),
          quiet_world\<lparr>fs := File ''{''\<rparr>)
   \<and> main (quiet_world\<lparr>fs := File ''{''\<rparr>)
       = Some (0, quiet_world\<lparr>fs := File ''{'',
            stdout := [PrintErr ''Error loading configuration:''
                        (Wrapped ''failed to parse config file: '' ErrUnexpectedEOF)]\<rparr>)"
proof -
  have d: "Decode ''{'' emptyConfig = Inl ErrUnexpectedEOF"
    by (simp add: json_eval)
  show ?thesis
    using malformed_config_fails [of "quiet_world\<lparr>fs := File ''{''\<rparr>" "''{''" ErrUnexpectedEOF] d
    by (simp add: quiet_world_def)
qed

text \<open>
  The claim's words: the content is valid JSON for the credential record when it is one
  JSON value, with nothing but white space after it, that can be stored in the record.
\<close>

definition valid_config_json :: "string \<Rightarrow> bool" where
  "valid_config_json content =
     (case json_value 0 content of
        Inl _ \<Rightarrow> False
      | Inr (v, rest) \<Rightarrow>
          skip_space rest = []
          \<and> (case unmarshal v emptyConfig of Inl _ \<Rightarrow> False | Inr _ \<Rightarrow> True))"

definition four_answers :: "stdin_event list" where
  "four_answers = bytes (''a'' @ [NL] @ ''b'' @ [NL] @ ''c'' @ [NL] @ ''d'' @ [NL])"

lemma read_four_answers:
  "ReadString four_answers = ((''a'' @ [NL], None), bytes (''b'' @ [NL] @ ''c'' @ [NL] @ ''d'' @ [NL]))"
  "ReadString (bytes (''b'' @ [NL] @ ''c'' @ [NL] @ ''d'' @ [NL])) = ((''b'' @ [NL], None), bytes (''c'' @ [NL] @ ''d'' @ [NL]))"
  "ReadString (bytes (''c'' @ [NL] @ ''d'' @ [NL])) = ((''c'' @ [NL], None), bytes (''d'' @ [NL]))"
  "ReadString (bytes (''d'' @ [NL])) = ((''d'' @ [NL], None), [])"
  by (simp_all add: four_answers_def bytes_def)

lemma trim_answers:
  "TrimSpace (''a'' @ [NL]) = ''a''" "TrimSpace (''b'' @ [NL]) = ''b''"
  "TrimSpace (''c'' @ [NL]) = ''c''" "TrimSpace (''d'' @ [NL]) = ''d''"
  "TrimSpace [NL] = []" "TrimSpace [] = []"
  by (simp_all add: TrimSpace_def asciiSpace_def)

text \<open>
  C5 as stated fails: the content \<open>{}x\<close> is not valid JSON, yet \<open>loadOrCreateConfig\<close>
  reports no parse error. It takes the leading \<open>{}\<close> for an incomplete record, prompts for
  the four fields, overwrites the file and returns the record.
\<close>

theorem invalid_json_accepted:
  "\<not> valid_config_json ''{}x''
   \<and> loadOrCreateConfig (quiet_world\<lparr>fs := File ''{}x'', stdin := four_answers\<rparr>)
     = (Loaded \<lparr>ConsumerKey = ''a'', ConsumerSecret = ''b'', AccessToken = ''c'', AccessSecret = ''d''\<rparr>,
        quiet_world
          \<lparr>fs := File (encode_Config
               \<lparr>ConsumerKey = ''a'', ConsumerSecret = ''b'', AccessToken = ''c'', AccessSecret = ''d''\<rparr>),
           stdout := [Print (''Configuration file is incomplete. Prompting for missing values...'' @ [NL]),
                      Print ''Enter Consumer Key: '', Print ''Enter Consumer Secret: '',
                      Print ''Enter Access Token: '', Print ''Enter Access Secret: '']\<rparr>)"
proof -
  let ?w = "quiet_world\<lparr>fs := File ''{}x'', stdin := four_answers\<rparr>"
  let ?w1 = "emit (Print (''Configuration file is incomplete. Prompting for missing values...'' @ [NL])) ?w"
  have v: "\<not> valid_config_json ''{}x''"
    by (simp add: valid_config_json_def json_eval)
  have d: "Decode ''{}x'' emptyConfig = Inr emptyConfig"
    by (simp add: json_eval)
  have l: "loadOrCreateConfig ?w = prompt_and_save emptyConfig ?w1"
    using load_present [of ?w "''{}x''"] d
    by (simp add: quiet_world_def incomplete_def emptyConfig_def)
  have p: "promptForConfigValues emptyConfig ?w1
     = (None, \<lparr>ConsumerKey = ''a'', ConsumerSecret = ''b'', AccessToken = ''c'', AccessSecret = ''d''\<rparr>,
        ?w1\<lparr>stdout := stdout ?w1 @ missing_prompts emptyConfig, stdin := []\<rparr>)"
    using read_four_answers trim_answers [simplified]
    by (simp add: promptForConfigValues_eq emptyConfig_def stdin_at_secret_def stdin_at_token_def
        stdin_at_access_secret_def stdin_at_end_def emit_def quiet_world_def)
  have s: "prompt_and_save emptyConfig ?w1
     = (Loaded (fst (snd (promptForConfigValues emptyConfig ?w1))),
        (snd (snd (promptForConfigValues emptyConfig ?w1)))
          \<lparr>fs := File (encode_Config (fst (snd (promptForConfigValues emptyConfig ?w1))))\<rparr>)"
    by (rule prompt_and_save_ok) (simp_all add: emit_def quiet_world_def)
  show ?thesis
    unfolding l s p fst_conv snd_conv
    using v by (simp add: emit_def quiet_world_def missing_prompts_def emptyConfig_def)
qed

text \<open>Every field of \<open>c\<close> that is empty gets an answer that trims to a non-empty text,
  when the reader of \<open>promptForConfigValues\<close> starts on the input \<open>i\<close>.\<close>

definition answered :: "Config \<Rightarrow> stdin_event list \<Rightarrow> bool" where
  "answered c i =
     ((ConsumerKey c = [] \<longrightarrow> TrimSpace (fst (fst (ReadString i))) \<noteq> [])
      \<and> (ConsumerSecret c = [] \<longrightarrow>
            TrimSpace (fst (fst (ReadString (stdin_at_secret c i)))) \<noteq> [])
      \<and> (AccessToken c = [] \<longrightarrow>
            TrimSpace (fst (fst (ReadString (stdin_at_token c i)))) \<noteq> [])
      \<and> (AccessSecret c = [] \<longrightarrow>
            TrimSpace (fst (fst (ReadString (stdin_at_access_secret c i)))) \<noteq> []))"

lemma prompted_complete_iff:
  "(\<not> incomplete (fst (snd (promptForConfigValues c w)))) = answered c (stdin w)"
  by (simp add: promptForConfigValues_eq incomplete_def answered_def)

lemma prompted_same_stdin:
  "stdin w1 = stdin w2 \<Longrightarrow>
   fst (snd (promptForConfigValues c w1)) = fst (snd (promptForConfigValues c w2))"
  by (simp add: promptForConfigValues_eq)

lemma answered_complete: "\<not> incomplete c \<Longrightarrow> answered c i"
  by (simp add: incomplete_def answered_def)

text \<open>
  C3 as stated fails: with no file and four empty answers \<open>loadOrCreateConfig\<close> returns
  without error a record whose four fields are empty.
\<close>

theorem loaded_record_incomplete:
  "fst (loadOrCreateConfig (quiet_world\<lparr>stdin := bytes [NL, NL, NL, NL]\<rparr>)) = Loaded emptyConfig
   \<and> incomplete emptyConfig"
proof -
  let ?w = "quiet_world\<lparr>stdin := bytes [NL, NL, NL, NL]\<rparr>"
  let ?w1 = "emit (Print (''Configuration file not found. Creating a new one...'' @ [NL])) (?w\<lparr>fs := NoFile\<rparr>)"
  have l: "loadOrCreateConfig ?w = prompt_and_save emptyConfig ?w1"
    by (rule load_missing) (simp_all add: quiet_world_def)
  have s: "prompt_and_save emptyConfig ?w1
     = (Loaded (fst (snd (promptForConfigValues emptyConfig ?w1))),
        (snd (snd (promptForConfigValues emptyConfig ?w1)))
          \<lparr>fs := File (encode_Config (fst (snd (promptForConfigValues emptyConfig ?w1))))\<rparr>)"
    by (rule prompt_and_save_ok) (simp_all add: emit_def quiet_world_def)
  have p: "fst (snd (promptForConfigValues emptyConfig ?w1)) = emptyConfig"
    using trim_answers
    by (simp add: promptForConfigValues_eq emptyConfig_def stdin_at_secret_def stdin_at_token_def
        stdin_at_access_secret_def emit_def quiet_world_def bytes_def)
  show ?thesis
    unfolding l s p fst_conv by (simp add: incomplete_def emptyConfig_def)
qed

lemma load_no_file:
  "loadOrCreateConfig w = (Loaded c, w') \<Longrightarrow> fs w = NoDir \<or> fs w = NoFile \<Longrightarrow>
   prompt_and_save emptyConfig
     (emit (Print (''Configuration file not found. Creating a new one...'' @ [NL]))
        (if dir_not_exist w then w\<lparr>fs := NoFile\<rparr> else w)) = (Loaded c, w')"
  by (auto simp add: loadOrCreateConfig_def getConfigFilePath_def dir_not_exist_def
      file_not_exist_def Open_def MkdirAll_def split: option.splits if_splits)

text \<open>
  C3, as amended. When \<open>loadOrCreateConfig\<close> returns a record without error, the record is
  complete exactly when every field that was prompted for (each of the four when there
  was no file, the empty fields of the decoded record otherwise) got an answer that trims
  to a non-empty text. A record decoded complete is returned as it is.
\<close>

theorem loaded_record_complete_iff:
  "loadOrCreateConfig w = (Loaded c, w') \<Longrightarrow>
   (case fs w of
      File content \<Rightarrow>
        (\<exists>c0. Decode content emptyConfig = Inr c0
           \<and> (\<not> incomplete c) = answered c0 (stdin w)
           \<and> (\<not> incomplete c0 \<longrightarrow> c = c0))
    | _ \<Rightarrow> (\<not> incomplete c) = answered emptyConfig (stdin w))"
proof (cases "fs w")
  case (File content)
  assume a: "loadOrCreateConfig w = (Loaded c, w')"
  from a have h: "home_fault w = None"
    by (auto simp add: loadOrCreateConfig_def getConfigFilePath_def split: option.splits)
  from a File h have o: "open_fault w = None"
    by (auto simp add: loadOrCreateConfig_def getConfigFilePath_def dir_not_exist_def
        file_not_exist_def Open_def split: option.splits)
  note lp = load_present [OF h File o]
  from a lp obtain c0 where d: "Decode content emptyConfig = Inr c0"
    by (cases "Decode content emptyConfig") auto
  show ?thesis
  proof (cases "incomplete c0")
    case True
    with a lp d have "prompt_and_save c0
        (emit (Print (''Configuration file is incomplete. Prompting for missing values...'' @ [NL])) w)
        = (Loaded c, w')" by simp
    then have "c = fst (snd (promptForConfigValues c0
        (emit (Print (''Configuration file is incomplete. Prompting for missing values...'' @ [NL])) w)))"
      by (rule prompt_and_save_Loaded)
    then have "(\<not> incomplete c) = answered c0 (stdin w)"
      by (simp add: prompted_complete_iff emit_def)
    with d True File show ?thesis by simp
  next
    case False
    with a lp d have "c = c0" by simp
    with d False File show ?thesis by (simp add: answered_complete)
  qed
next
  case NoDir
  assume a: "loadOrCreateConfig w = (Loaded c, w')"
  from load_no_file [OF a] NoDir
  have "c = fst (snd (promptForConfigValues emptyConfig
      (emit (Print (''Configuration file not found. Creating a new one...'' @ [NL]))
         (if dir_not_exist w then w\<lparr>fs := NoFile\<rparr> else w))))"
    by (intro prompt_and_save_Loaded) simp
  then have "(\<not> incomplete c) = answered emptyConfig (stdin w)"
    by (simp add: prompted_complete_iff emit_def)
  with NoDir show ?thesis by simp
next
  case NoFile
  assume a: "loadOrCreateConfig w = (Loaded c, w')"
  from load_no_file [OF a] NoFile
  have "c = fst (snd (promptForConfigValues emptyConfig
      (emit (Print (''Configuration file not found. Creating a new one...'' @ [NL]))
         (if dir_not_exist w then w\<lparr>fs := NoFile\<rparr> else w))))"
    by (intro prompt_and_save_Loaded) simp
  then have "(\<not> incomplete c) = answered emptyConfig (stdin w)"
    by (simp add: prompted_complete_iff emit_def)
  with NoFile show ?thesis by simp
qed


lemma run_four_answers:
  "loadOrCreateConfig (quiet_world\<lparr>stdin := four_answers\<rparr>)
     = (Loaded \<lparr>ConsumerKey = ''a'', ConsumerSecret = ''b'', AccessToken = ''c'', AccessSecret = ''d''\<rparr>,
        quiet_world
          \<lparr>fs := File (encode_Config
               \<lparr>ConsumerKey = ''a'', ConsumerSecret = ''b'', AccessToken = ''c'', AccessSecret = ''d''\<rparr>),
           stdout := [Print (''Configuration file not found. Creating a new one...'' @ [NL]),
                      Print ''Enter Consumer Key: '', Print ''Enter Consumer Secret: '',
                      Print ''Enter Access Token: '', Print ''Enter Access Secret: '']\<rparr>)"
proof -
  let ?w = "quiet_world\<lparr>stdin := four_answers\<rparr>"
  let ?w1 = "emit (Print (''Configuration file not found. Creating a new one...'' @ [NL])) (?w\<lparr>fs := NoFile\<rparr>)"
  have l: "loadOrCreateConfig ?w = prompt_and_save emptyConfig ?w1"
    by (rule load_missing) (simp_all add: quiet_world_def)
  have p: "promptForConfigValues emptyConfig ?w1
     = (None, \<lparr>ConsumerKey = ''a'', ConsumerSecret = ''b'', AccessToken = ''c'', AccessSecret = ''d''\<rparr>,
        ?w1\<lparr>stdout := stdout ?w1 @ missing_prompts emptyConfig, stdin := []\<rparr>)"
    using read_four_answers trim_answers [simplified]
    by (simp add: promptForConfigValues_eq emptyConfig_def stdin_at_secret_def stdin_at_token_def
        stdin_at_access_secret_def stdin_at_end_def emit_def quiet_world_def)
  have s: "prompt_and_save emptyConfig ?w1
     = (Loaded (fst (snd (promptForConfigValues emptyConfig ?w1))),
        (snd (snd (promptForConfigValues emptyConfig ?w1)))
          \<lparr>fs := File (encode_Config (fst (snd (promptForConfigValues emptyConfig ?w1))))\<rparr>)"
    by (rule prompt_and_save_ok) (simp_all add: emit_def quiet_world_def)
  show ?thesis
    unfolding l s p fst_conv snd_conv
    by (simp add: emit_def quiet_world_def missing_prompts_def emptyConfig_def)
qed

theorem loaded_record_complete_iff_witness:
  "loadOrCreateConfig (quiet_world\<lparr>stdin := four_answers\<rparr>)
     = (Loaded \<lparr>ConsumerKey = ''a'', ConsumerSecret = ''b'', AccessToken = ''c'', AccessSecret = ''d''\<rparr>,
        quiet_world
          \<lparr>fs := File (encode_Config
               \<lparr>ConsumerKey = ''a'', ConsumerSecret = ''b'', AccessToken = ''c'', AccessSecret = ''d''\<rparr>),
           stdout := [Print (''Configuration file not found. Creating a new one...'' @ [NL]),
                      Print ''Enter Consumer Key: '', Print ''Enter Consumer Secret: '',
                      Print ''Enter Access Token: '', Print ''Enter Access Secret: '']\<rparr>)
   \<and> \<not> incomplete \<lparr>ConsumerKey = ''a'', ConsumerSecret = ''b'', AccessToken = ''c'', AccessSecret = ''d''\<rparr>
   \<and> answered emptyConfig four_answers"
  using loaded_record_complete_iff [OF run_four_answers] run_four_answers
  by (simp add: quiet_world_def incomplete_def)

text \<open>
  C10. On both prompting paths \<open>loadOrCreateConfig\<close> saves the record that the prompting
  returned, complete or not: with no file, and with a file that decodes to an incomplete
  record, whose content is replaced. \<open>saveConfig\<close> replaces whatever the file held by the
  encoding of the record.
\<close>

theorem persist_is_unconditional:
  "(home_fault w = None \<and> stat_dir_fault w = None \<and> stat_file_fault w = None
      \<and> mkdir_fault w = None \<and> create_fault w = None \<and> write_fault w = None
      \<and> (fs w = NoDir \<or> fs w = NoFile) \<longrightarrow>
      (\<exists>c w'. loadOrCreateConfig w = (Loaded c, w') \<and> fs w' = File (encode_Config c)
         \<and> (\<not> incomplete c) = answered emptyConfig (stdin w)))
   \<and> (home_fault w = None \<and> fs w = File content \<and> open_fault w = None
      \<and> create_fault w = None \<and> write_fault w = None
      \<and> Decode content emptyConfig = Inr c0 \<and> incomplete c0 \<longrightarrow>
      (\<exists>c w'. loadOrCreateConfig w = (Loaded c, w') \<and> fs w' = File (encode_Config c)
         \<and> (\<not> incomplete c) = answered c0 (stdin w)))
   \<and> (create_fault w = None \<and> write_fault w = None \<and> fs w \<noteq> NoDir \<longrightarrow>
      saveConfig c1 w = (None, w\<lparr>fs := File (encode_Config c1)\<rparr>))"
proof (intro conjI impI)
  assume a: "home_fault w = None \<and> stat_dir_fault w = None \<and> stat_file_fault w = None
      \<and> mkdir_fault w = None \<and> create_fault w = None \<and> write_fault w = None
      \<and> (fs w = NoDir \<or> fs w = NoFile)"
  let ?w1 = "emit (Print (''Configuration file not found. Creating a new one...'' @ [NL])) (w\<lparr>fs := NoFile\<rparr>)"
  from a have l: "loadOrCreateConfig w = prompt_and_save emptyConfig ?w1"
    by (intro load_missing) simp_all
  from a have s: "prompt_and_save emptyConfig ?w1
     = (Loaded (fst (snd (promptForConfigValues emptyConfig ?w1))),
        (snd (snd (promptForConfigValues emptyConfig ?w1)))
          \<lparr>fs := File (encode_Config (fst (snd (promptForConfigValues emptyConfig ?w1))))\<rparr>)"
    by (intro prompt_and_save_ok) (simp_all add: emit_def)
  have "(\<not> incomplete (fst (snd (promptForConfigValues emptyConfig ?w1)))) = answered emptyConfig (stdin w)"
    by (simp add: prompted_complete_iff emit_def)
  with l s show "\<exists>c w'. loadOrCreateConfig w = (Loaded c, w') \<and> fs w' = File (encode_Config c)
         \<and> (\<not> incomplete c) = answered emptyConfig (stdin w)"
    by simp
next
  assume a: "home_fault w = None \<and> fs w = File content \<and> open_fault w = None
      \<and> create_fault w = None \<and> write_fault w = None
      \<and> Decode content emptyConfig = Inr c0 \<and> incomplete c0"
  let ?w1 = "emit (Print (''Configuration file is incomplete. Prompting for missing values...'' @ [NL])) w"
  from a have l: "loadOrCreateConfig w = prompt_and_save c0 ?w1"
    using load_present [of w content] by simp
  from a have s: "prompt_and_save c0 ?w1
     = (Loaded (fst (snd (promptForConfigValues c0 ?w1))),
        (snd (snd (promptForConfigValues c0 ?w1)))
          \<lparr>fs := File (encode_Config (fst (snd (promptForConfigValues c0 ?w1))))\<rparr>)"
    by (intro prompt_and_save_ok) (simp_all add: emit_def)
  have "(\<not> incomplete (fst (snd (promptForConfigValues c0 ?w1)))) = answered c0 (stdin w)"
    by (simp add: prompted_complete_iff emit_def)
  with l s show "\<exists>c w'. loadOrCreateConfig w = (Loaded c, w') \<and> fs w' = File (encode_Config c)
         \<and> (\<not> incomplete c) = answered c0 (stdin w)"
    by simp
next
  assume "create_fault w = None \<and> write_fault w = None \<and> fs w \<noteq> NoDir"
  then show "saveConfig c1 w = (None, w\<lparr>fs := File (encode_Config c1)\<rparr>)"
    by (simp add: saveConfig_ok)
qed


theorem persist_is_unconditional_witness:
  "(\<exists>c w'. loadOrCreateConfig quiet_world = (Loaded c, w') \<and> fs w' = File (encode_Config c)
       \<and> incomplete c)
   \<and> (\<exists>c w'. loadOrCreateConfig (quiet_world\<lparr>fs := File ''{}''\<rparr>) = (Loaded c, w')
       \<and> fs w' = File (encode_Config c) \<and> incomplete c)
   \<and> saveConfig emptyConfig (quiet_world\<lparr>fs := File ''old content''\<rparr>)
       = (None, quiet_world\<lparr>fs := File (encode_Config emptyConfig)\<rparr>)
   \<and> encode_Config emptyConfig
       = ''{'' @ [NL]
         @ ''  '' @ [DQ] @ ''consumer_key'' @ [DQ] @ '': '' @ [DQ, DQ] @ '','' @ [NL]
         @ ''  '' @ [DQ] @ ''consumer_secret'' @ [DQ] @ '': '' @ [DQ, DQ] @ '','' @ [NL]
         @ ''  '' @ [DQ] @ ''access_token'' @ [DQ] @ '': '' @ [DQ, DQ] @ '','' @ [NL]
         @ ''  '' @ [DQ] @ ''access_secret'' @ [DQ] @ '': '' @ [DQ, DQ] @ [NL]
         @ ''}'' @ [NL]"
proof -
  have n: "\<not> answered emptyConfig []"
    using trim_answers by (simp add: answered_def emptyConfig_def)
  have d: "Decode ''{}'' emptyConfig = Inr emptyConfig"
    by (simp add: json_eval)
  have e: "encode_Config emptyConfig
       = ''{'' @ [NL]
         @ ''  '' @ [DQ] @ ''consumer_key'' @ [DQ] @ '': '' @ [DQ, DQ] @ '','' @ [NL]
         @ ''  '' @ [DQ] @ ''consumer_secret'' @ [DQ] @ '': '' @ [DQ, DQ] @ '','' @ [NL]
         @ ''  '' @ [DQ] @ ''access_token'' @ [DQ] @ '': '' @ [DQ, DQ] @ '','' @ [NL]
         @ ''  '' @ [DQ] @ ''access_secret'' @ [DQ] @ '': '' @ [DQ, DQ] @ [NL]
         @ ''}'' @ [NL]"
    by (simp add: enc_eval emptyConfig_def)
  have i: "incomplete emptyConfig"
    by (simp add: incomplete_def emptyConfig_def)
  have a: "\<exists>c w'. loadOrCreateConfig quiet_world = (Loaded c, w') \<and> fs w' = File (encode_Config c)
       \<and> incomplete c"
    using persist_is_unconditional [of quiet_world] n
    by (simp add: quiet_world_def)
  have b: "\<exists>c w'. loadOrCreateConfig (quiet_world\<lparr>fs := File ''{}''\<rparr>) = (Loaded c, w')
       \<and> fs w' = File (encode_Config c) \<and> incomplete c"
    using persist_is_unconditional [of "quiet_world\<lparr>fs := File ''{}''\<rparr>" "''{}''" emptyConfig] n d i
    by (simp add: quiet_world_def)
  have c: "saveConfig emptyConfig (quiet_world\<lparr>fs := File ''old content''\<rparr>)
       = (None, quiet_world\<lparr>fs := File (encode_Config emptyConfig)\<rparr>)"
    using persist_is_unconditional [of "quiet_world\<lparr>fs := File ''old content''\<rparr>" _ _ emptyConfig]
    by (simp add: quiet_world_def)
  from a b c e show ?thesis by blast
qed

section \<open>Saving and loading the record\<close>

text \<open>\<^verbatim>\<open>utf8.ValidString\<close>: no step of the decoding meets an invalid byte.\<close>

function ValidString :: "string \<Rightarrow> bool" where
  "ValidString s =
     (if s = [] then True
      else \<not> (fst (DecodeRune s) = RuneError \<and> snd (DecodeRune s) = 1)
           \<and> ValidString (drop (snd (DecodeRune s)) s))"
  by pat_completeness auto
termination
  by (relation "measure length") (auto simp add: DecodeRune_size_pos)

declare ValidString.simps [simp del]

lemma DecodeRune_ascii: "byte c < 0x80 \<Longrightarrow> DecodeRune (c # p) = (byte c, 1)"
  by (simp add: DecodeRune.simps)


lemma horner_div: "x < 64 \<Longrightarrow> (q * 64 + x) div 64 = (q::nat)" by simp
lemma horner_mod: "x < 64 \<Longrightarrow> (q * 64 + x) mod 64 = (x::nat)" by simp

lemma div4096: "(r::nat) div 4096 = r div 64 div 64"
  by (simp add: div_mult2_eq [symmetric])
lemma div262144: "(r::nat) div 262144 = r div 64 div 64 div 64"
  by (simp add: div_mult2_eq [symmetric])

lemma Encode2:
  assumes "2 \<le> a" "a < 32" "x < 64"
  shows "EncodeRune (a * 64 + x) = [char_of (192 + a), char_of (128 + x)]"
proof -
  have "\<not> a * 64 + x \<le> 0x7F" "a * 64 + x \<le> 0x7FF" using assms by simp_all
  then show ?thesis
    using assms by (simp add: EncodeRune_def)
qed

lemma Encode3:
  assumes "a < 16" "x < 64" "y < 64" "1 \<le> a \<or> 32 \<le> x" "a = 13 \<longrightarrow> x < 32"
  shows "EncodeRune ((a * 64 + x) * 64 + y)
     = [char_of (224 + a), char_of (128 + x), char_of (128 + y)]"
proof -
  let ?r = "(a * 64 + x) * 64 + y"
  have 1: "\<not> ?r \<le> 0x7F" "\<not> ?r \<le> 0x7FF" using assms by auto
  have 2: "\<not> 0x10FFFF < ?r" "?r \<le> 0xFFFF" using assms by simp_all
  have 3: "\<not> (0xD800 \<le> ?r \<and> ?r \<le> 0xDFFF)"
  proof (cases "a \<le> 12")
    case True
    then have "a * 64 + x \<le> 12 * 64 + 63" using assms by (simp add: add_mono)
    then show ?thesis using assms by simp
  next
    case False
    show ?thesis
    proof (cases "a = 13")
      case True
      then show ?thesis using assms by simp
    next
      case False
      with \<open>\<not> a \<le> 12\<close> have "14 \<le> a" by simp
      then have "14 * 64 \<le> a * 64 + x" by simp
      then show ?thesis by simp
    qed
  qed
  have d1: "?r div 64 = a * 64 + x" using assms(3) by (rule horner_div)
  have d2: "(a * 64 + x) div 64 = a" using assms(2) by (rule horner_div)
  have d: "?r div 4096 = a" "?r div 64 mod 64 = x" "?r mod 64 = y"
    using assms(2,3) by (simp_all only: div4096 d1 d2 horner_mod)
  show ?thesis
    unfolding EncodeRune_def by (simp only: 1 2 3 d if_False if_True simp_thms)
qed

lemma Encode4:
  assumes "a < 5" "x < 64" "y < 64" "z < 64" "1 \<le> a \<or> 16 \<le> x" "a = 4 \<longrightarrow> x < 16"
  shows "EncodeRune (((a * 64 + x) * 64 + y) * 64 + z)
     = [char_of (240 + a), char_of (128 + x), char_of (128 + y), char_of (128 + z)]"
proof -
  let ?r = "((a * 64 + x) * 64 + y) * 64 + z"
  have q: "16 \<le> a * 64 + x" "a * 64 + x \<le> 271" using assms by auto
  have 1: "\<not> ?r \<le> 0x7F" "\<not> ?r \<le> 0x7FF" "\<not> ?r \<le> 0xFFFF" using q by simp_all
  have 2: "\<not> 0x10FFFF < ?r" using q assms by simp
  have 3: "\<not> (0xD800 \<le> ?r \<and> ?r \<le> 0xDFFF)" using q by simp
  have d1: "?r div 64 = (a * 64 + x) * 64 + y" using assms(4) by (rule horner_div)
  have d2: "((a * 64 + x) * 64 + y) div 64 = a * 64 + x" using assms(3) by (rule horner_div)
  have d3: "(a * 64 + x) div 64 = a" using assms(2) by (rule horner_div)
  have d: "?r div 262144 = a" "?r div 4096 mod 64 = x" "?r div 64 mod 64 = y" "?r mod 64 = z"
    using assms(2,3,4) by (simp_all only: div262144 div4096 d1 d2 d3 horner_mod)
  show ?thesis
    unfolding EncodeRune_def by (simp only: 1 2 3 d if_False if_True simp_thms)
qed


lemma mod_range:
  fixes p :: nat
  assumes "q * m \<le> p" "p < q * m + m"
  shows "p mod m = p - q * m"
proof -
  have "p = (p - q * m) + q * m" using assms by simp
  then have "p mod m = ((p - q * m) + q * m) mod m" by simp
  also have "\<dots> = (p - q * m) mod m" by (rule mod_mult_self1)
  also have "\<dots> = p - q * m" using assms by (intro mod_less) simp
  finally show ?thesis .
qed

lemma mod32: "(194::nat) \<le> p0 \<Longrightarrow> p0 < 224 \<Longrightarrow> p0 mod 32 = p0 - 192"
  using mod_range [of 6 32 p0] by simp

lemma mod16: "(224::nat) \<le> p0 \<Longrightarrow> p0 < 240 \<Longrightarrow> p0 mod 16 = p0 - 224"
  using mod_range [of 14 16 p0] by simp

lemma mod8: "(240::nat) \<le> p0 \<Longrightarrow> p0 \<le> 244 \<Longrightarrow> p0 mod 8 = p0 - 240"
  using mod_range [of 30 8 p0] by simp

lemma mod64: "(128::nat) \<le> b \<Longrightarrow> b \<le> 191 \<Longrightarrow> b mod 64 = b - 128"
  using mod_range [of 2 64 b] by simp

lemma DecodeRune_two:
  assumes "0xC2 \<le> byte c0" "byte c0 < 0xE0"
  shows "DecodeRune (c0 # p) =
     (case p of
        c1 # _ \<Rightarrow>
          if cont_byte (byte c1) then ((byte c0 - 192) * 64 + (byte c1 - 128), 2)
          else (RuneError, 1)
      | [] \<Rightarrow> (RuneError, 1))"
  using assms
  by (auto simp add: DecodeRune.simps accept_lo_def accept_hi_def cont_byte_def mod32 mod64
      split: list.splits)

lemma DecodeRune_three:
  assumes "0xE0 \<le> byte c0" "byte c0 < 0xF0"
  shows "DecodeRune (c0 # p) =
     (case p of
        c1 # c2 # _ \<Rightarrow>
          if accept_lo (byte c0) \<le> byte c1 \<and> byte c1 \<le> accept_hi (byte c0) \<and> cont_byte (byte c2)
          then (((byte c0 - 224) * 64 + (byte c1 - 128)) * 64 + (byte c2 - 128), 3)
          else (RuneError, 1)
      | _ \<Rightarrow> (RuneError, 1))"
proof (cases p)
  case Nil
  with assms show ?thesis by (simp add: DecodeRune.simps)
next
  case (Cons c1 p1)
  show ?thesis
  proof (cases p1)
    case Nil
    with Cons assms show ?thesis by (simp add: DecodeRune.simps)
  next
    case (Cons c2 p2)
    show ?thesis
    proof (cases "accept_lo (byte c0) \<le> byte c1 \<and> byte c1 \<le> accept_hi (byte c0) \<and> cont_byte (byte c2)")
      case True
      then have r: "128 \<le> byte c1" "byte c1 \<le> 191" "128 \<le> byte c2" "byte c2 \<le> 191"
        by (auto simp add: accept_lo_def accept_hi_def cont_byte_def split: if_splits)
      from True assms \<open>p = c1 # p1\<close> \<open>p1 = c2 # p2\<close> show ?thesis
        by (simp add: DecodeRune.simps mod16 [OF assms] mod64 [OF r(1,2)] mod64 [OF r(3,4)]
            not_less [symmetric])
    next
      case False
      with assms \<open>p = c1 # p1\<close> \<open>p1 = c2 # p2\<close> show ?thesis
        by (auto simp add: DecodeRune.simps Let_def)
    qed
  qed
qed


lemma DecodeRune_four:
  assumes "0xF0 \<le> byte c0" "byte c0 \<le> 0xF4"
  shows "DecodeRune (c0 # p) =
     (case p of
        c1 # c2 # c3 # _ \<Rightarrow>
          if accept_lo (byte c0) \<le> byte c1 \<and> byte c1 \<le> accept_hi (byte c0) \<and> cont_byte (byte c2)
             \<and> cont_byte (byte c3)
          then ((((byte c0 - 240) * 64 + (byte c1 - 128)) * 64 + (byte c2 - 128)) * 64
                  + (byte c3 - 128), 4)
          else (RuneError, 1)
      | _ \<Rightarrow> (RuneError, 1))"
proof (cases "\<exists>c1 c2 c3 p3. p = c1 # c2 # c3 # p3")
  case False
  then have "length p < 3"
    by (cases p; cases "tl p"; cases "tl (tl p)") auto
  with assms show ?thesis
    by (cases p; cases "tl p"; cases "tl (tl p)") (auto simp add: DecodeRune.simps Let_def)
next
  case True
  then obtain c1 c2 c3 p3 where p: "p = c1 # c2 # c3 # p3" by blast
  show ?thesis
  proof (cases "accept_lo (byte c0) \<le> byte c1 \<and> byte c1 \<le> accept_hi (byte c0)
      \<and> cont_byte (byte c2) \<and> cont_byte (byte c3)")
    case True
    then have r: "128 \<le> byte c1" "byte c1 \<le> 191" "128 \<le> byte c2" "byte c2 \<le> 191"
      "128 \<le> byte c3" "byte c3 \<le> 191"
      by (auto simp add: accept_lo_def accept_hi_def cont_byte_def split: if_splits)
    from True assms p show ?thesis
      by (simp add: DecodeRune.simps mod8 [OF assms] mod64 [OF r(1,2)] mod64 [OF r(3,4)]
          mod64 [OF r(5,6)] not_less [symmetric] Let_def)
  next
    case False
    with assms p show ?thesis
      by (auto simp add: DecodeRune.simps Let_def)
  qed
qed

text \<open>Decoding a valid encoding and encoding the rune again gives the bytes back.\<close>

lemma EncodeRune_DecodeRune:
  assumes "s \<noteq> []" "\<not> (fst (DecodeRune s) = RuneError \<and> snd (DecodeRune s) = 1)"
  shows "EncodeRune (fst (DecodeRune s)) = take (snd (DecodeRune s)) s"
proof -
  obtain c0 p where s: "s = c0 # p" using assms(1) by (cases s) auto
  consider (ascii) "byte c0 < 0x80"
    | (inv) "0x80 \<le> byte c0" "byte c0 < 0xC2 \<or> 0xF4 < byte c0"
    | (two) "0xC2 \<le> byte c0" "byte c0 < 0xE0"
    | (three) "0xE0 \<le> byte c0" "byte c0 < 0xF0"
    | (four) "0xF0 \<le> byte c0" "byte c0 \<le> 0xF4"
    by linarith
  then show ?thesis
  proof cases
    case ascii
    then show ?thesis by (simp add: s DecodeRune_ascii EncodeRune_def)
  next
    case inv
    then have "DecodeRune s = (RuneError, 1)" by (auto simp add: s DecodeRune.simps Let_def)
    with assms(2) show ?thesis by simp
  next
    case two
    note d = DecodeRune_two [OF two, of p]
    from assms(2) d obtain c1 p1 where p: "p = c1 # p1" and c: "cont_byte (byte c1)"
      by (cases p) (auto simp add: s split: if_splits)
    from c have r: "128 \<le> byte c1" "byte c1 \<le> 191" by (simp_all add: cont_byte_def)
    have "EncodeRune ((byte c0 - 192) * 64 + (byte c1 - 128))
        = [char_of (192 + (byte c0 - 192)), char_of (128 + (byte c1 - 128))]"
      using two r by (intro Encode2) simp_all
    also have "\<dots> = [c0, c1]" using two r by simp
    finally show ?thesis using d p c by (simp add: s)
  next
    case three
    note d = DecodeRune_three [OF three, of p]
    from assms(2) d obtain c1 c2 p2 where p: "p = c1 # c2 # p2"
      and c: "accept_lo (byte c0) \<le> byte c1 \<and> byte c1 \<le> accept_hi (byte c0) \<and> cont_byte (byte c2)"
      by (cases p; cases "tl p") (auto simp add: s split: if_splits)
    from c have r: "128 \<le> byte c1" "byte c1 \<le> 191" "128 \<le> byte c2" "byte c2 \<le> 191"
      by (auto simp add: accept_lo_def accept_hi_def cont_byte_def split: if_splits)
    have "EncodeRune (((byte c0 - 224) * 64 + (byte c1 - 128)) * 64 + (byte c2 - 128))
        = [char_of (224 + (byte c0 - 224)), char_of (128 + (byte c1 - 128)),
           char_of (128 + (byte c2 - 128))]"
      using three r c
      by (intro Encode3) (auto simp add: accept_lo_def accept_hi_def split: if_splits)
    also have "\<dots> = [c0, c1, c2]" using three r by simp
    finally show ?thesis using d p c by (simp add: s)
  next
    case four
    note d = DecodeRune_four [OF four, of p]
    from assms(2) d obtain c1 c2 c3 p3 where p: "p = c1 # c2 # c3 # p3"
      and c: "accept_lo (byte c0) \<le> byte c1 \<and> byte c1 \<le> accept_hi (byte c0)
        \<and> cont_byte (byte c2) \<and> cont_byte (byte c3)"
      by (cases p; cases "tl p"; cases "tl (tl p)") (auto simp add: s split: if_splits)
    from c have r: "128 \<le> byte c1" "byte c1 \<le> 191" "128 \<le> byte c2" "byte c2 \<le> 191"
      "128 \<le> byte c3" "byte c3 \<le> 191"
      by (auto simp add: accept_lo_def accept_hi_def cont_byte_def split: if_splits)
    have "EncodeRune ((((byte c0 - 240) * 64 + (byte c1 - 128)) * 64 + (byte c2 - 128)) * 64
          + (byte c3 - 128))
        = [char_of (240 + (byte c0 - 240)), char_of (128 + (byte c1 - 128)),
           char_of (128 + (byte c2 - 128)), char_of (128 + (byte c3 - 128))]"
      using four r c
      by (intro Encode4) (auto simp add: accept_lo_def accept_hi_def split: if_splits)
    also have "\<dots> = [c0, c1, c2, c3]" using four r by simp
    finally show ?thesis using d p c by (simp add: s)
  qed
qed

lemma DecodeRune_size_le: "snd (DecodeRune s) \<le> length s"
  by (cases s) (simp_all add: DecodeRune.simps Let_def split: list.splits)

lemma DecodeRune_size_le4: "snd (DecodeRune s) \<le> 4"
  by (cases s) (simp_all add: DecodeRune.simps Let_def split: list.splits)

text \<open>A valid encoding is decoded from its own bytes, whatever follows them.\<close>

lemma DecodeRune_prefix:
  assumes "s \<noteq> []" "\<not> (fst (DecodeRune s) = RuneError \<and> snd (DecodeRune s) = 1)"
  shows "DecodeRune (take (snd (DecodeRune s)) s @ x) = DecodeRune s"
proof -
  obtain c0 p where s: "s = c0 # p" using assms(1) by (cases s) auto
  consider (ascii) "byte c0 < 0x80"
    | (inv) "0x80 \<le> byte c0" "byte c0 < 0xC2 \<or> 0xF4 < byte c0"
    | (two) "0xC2 \<le> byte c0" "byte c0 < 0xE0"
    | (three) "0xE0 \<le> byte c0" "byte c0 < 0xF0"
    | (four) "0xF0 \<le> byte c0" "byte c0 \<le> 0xF4"
    by linarith
  then show ?thesis
  proof cases
    case ascii
    then show ?thesis by (simp add: s DecodeRune_ascii)
  next
    case inv
    then have "DecodeRune s = (RuneError, 1)" by (auto simp add: s DecodeRune.simps Let_def)
    with assms(2) show ?thesis by simp
  next
    case two
    note d = DecodeRune_two [OF two]
    from assms(2) d [of p] obtain c1 p1 where p: "p = c1 # p1" and c: "cont_byte (byte c1)"
      by (cases p) (auto simp add: s split: if_splits)
    show ?thesis using c by (simp add: s p d)
  next
    case three
    note d = DecodeRune_three [OF three]
    from assms(2) d [of p] obtain c1 c2 p2 where p: "p = c1 # c2 # p2"
      and c: "accept_lo (byte c0) \<le> byte c1 \<and> byte c1 \<le> accept_hi (byte c0) \<and> cont_byte (byte c2)"
      by (cases p; cases "tl p") (auto simp add: s split: if_splits)
    show ?thesis using c by (simp add: s p d)
  next
    case four
    note d = DecodeRune_four [OF four]
    from assms(2) d [of p] obtain c1 c2 c3 p3 where p: "p = c1 # c2 # c3 # p3"
      and c: "accept_lo (byte c0) \<le> byte c1 \<and> byte c1 \<le> accept_hi (byte c0)
        \<and> cont_byte (byte c2) \<and> cont_byte (byte c3)"
      by (cases p; cases "tl p"; cases "tl (tl p)") (auto simp add: s split: if_splits)
    show ?thesis using c by (simp add: s p d)
  qed
qed

lemma hexval_hex: "n < 16 \<Longrightarrow> hexval (hex n) = Some n"
proof -
  assume "n < 16"
  then have "n \<in> {0, 1, 2, 3, 4, 5, 6, 7, 8, 9, 10, 11, 12, 13, 14, 15}"
    by (simp add: eval_nat_numeral less_Suc_eq)
  then show ?thesis
    by (auto simp add: hex_def hexval_def)
qed

lemma string_lit_simple_escape:
  "simple_escape e = Some x \<Longrightarrow> e \<noteq> CHR ''u'' \<Longrightarrow>
   string_lit (BS # e # rest) = prepend [x] (string_lit rest)"
  by (subst string_lit.simps) simp

lemma string_lit_u00:
  assumes "n < 0x80"
  shows "string_lit (BS # CHR ''u'' # CHR ''0'' # CHR ''0'' # hex (n div 16) # hex (n mod 16) # rest)
     = prepend [char_of n] (string_lit rest)"
proof -
  have h: "hexval (hex (n div 16)) = Some (n div 16)" "hexval (hex (n mod 16)) = Some (n mod 16)"
    using assms by (simp_all add: hexval_hex)
  have z: "hexval (CHR ''0'') = Some 0" by (simp add: hexval_def)
  have v: "hex4 (CHR ''0'' # CHR ''0'' # hex (n div 16) # hex (n mod 16) # rest) = Inr n"
    by (simp add: h z)
  have e: "EncodeRune n = [char_of n]" using assms by (simp add: EncodeRune_def)
  have s: "\<not> is_surrogate n" using assms by (simp add: is_surrogate_def)
  show ?thesis
    by (subst string_lit.simps) (simp add: v e s del: hex4.simps)
qed

lemma string_lit_escape_ascii:
  assumes "byte b < 0x80" "\<not> htmlSafeSet b"
  shows "string_lit (escape_ascii b @ rest) = prepend [b] (string_lit rest)"
proof -
  consider (q) "b = BS \<or> b = DQ" | (b) "b = CHR 0x08" | (f) "b = CHR 0x0C" | (n) "b = NL"
    | (r) "b = CHR 0x0D" | (t) "b = CHR 0x09"
    | (u) "b \<noteq> BS" "b \<noteq> DQ" "b \<noteq> CHR 0x08" "b \<noteq> CHR 0x0C" "b \<noteq> NL" "b \<noteq> CHR 0x0D" "b \<noteq> CHR 0x09"
    by blast
  then show ?thesis
  proof cases
    case q
    then show ?thesis
      by (auto simp add: escape_ascii_def string_lit_simple_escape simple_escape_def)
  next
    case b
    then show ?thesis by (simp add: escape_ascii_def string_lit_simple_escape simple_escape_def)
  next
    case f
    then show ?thesis by (simp add: escape_ascii_def string_lit_simple_escape simple_escape_def)
  next
    case n
    then show ?thesis by (simp add: escape_ascii_def string_lit_simple_escape simple_escape_def)
  next
    case r
    then show ?thesis by (simp add: escape_ascii_def string_lit_simple_escape simple_escape_def)
  next
    case t
    then show ?thesis by (simp add: escape_ascii_def string_lit_simple_escape simple_escape_def)
  next
    case u
    then show ?thesis
      using string_lit_u00 [OF assms(1), of rest] by (simp add: escape_ascii_def)
  qed
qed

lemma string_lit_u202:
  assumes "r = 0x2028 \<or> r = 0x2029"
  shows "string_lit (BS # CHR ''u'' # CHR ''2'' # CHR ''0'' # CHR ''2'' # hex (r mod 16) # rest)
     = prepend (EncodeRune r) (string_lit rest)"
proof -
  have v: "hex4 (CHR ''2'' # CHR ''0'' # CHR ''2'' # hex (r mod 16) # rest) = Inr r"
    using assms by (auto simp add: hexval_def hex_def)
  have s: "\<not> is_surrogate r" using assms by (auto simp add: is_surrogate_def)
  show ?thesis
    by (subst string_lit.simps) (simp add: v s del: hex4.simps)
qed

lemma string_lit_safe:
  "htmlSafeSet b \<Longrightarrow> string_lit (b # rest) = prepend [b] (string_lit rest)"
  by (subst string_lit.simps) (auto simp add: htmlSafeSet_def)

lemma string_lit_multibyte:
  assumes "s \<noteq> []" "0x80 \<le> byte (hd s)"
    "\<not> (fst (DecodeRune s) = RuneError \<and> snd (DecodeRune s) = 1)"
  shows "string_lit (take (snd (DecodeRune s)) s @ rest)
     = prepend (take (snd (DecodeRune s)) s) (string_lit rest)"
proof -
  obtain c0 p where s: "s = c0 # p" using assms(1) by (cases s) auto
  let ?n = "snd (DecodeRune s)"
  have n: "0 < ?n" "?n \<le> length s"
    using assms(1) by (simp_all add: DecodeRune_size_pos DecodeRune_size_le)
  then obtain k where k: "?n = Suc k" by (cases ?n) auto
  have t: "take ?n s @ rest = c0 # (take k p @ rest)" using k unfolding s by simp
  have d: "DecodeRune (c0 # (take k p @ rest)) = DecodeRune s"
    using DecodeRune_prefix [OF assms(1,3), of rest] by (simp add: t)
  have e: "EncodeRune (fst (DecodeRune s)) = take ?n s"
    by (rule EncodeRune_DecodeRune [OF assms(1,3)])
  have c: "c0 \<noteq> DQ" "c0 \<noteq> BS" "\<not> byte c0 < 0x20" "\<not> byte c0 < 0x80"
    using assms(2) by (auto simp add: s)
  have dr: "drop ?n (c0 # (take k p @ rest)) = rest"
    using n k unfolding s by simp
  show ?thesis
    unfolding t
    by (subst string_lit.simps) (simp add: c d e dr del: of_char_eq_iff)
qed

lemma ValidString_Cons_ascii: "byte b < 0x80 \<Longrightarrow> ValidString (b # r) = ValidString r"
  by (subst ValidString.simps) (simp add: DecodeRune_ascii RuneError_def)

text \<open>A valid string that was written by \<open>appendString\<close> is read back by \<open>string_lit\<close>.\<close>

lemma string_lit_appendString:
  "ValidString s \<Longrightarrow> string_lit (appendString s @ DQ # rest) = Inr (s, rest)"
proof (induction "length s" arbitrary: s rule: less_induct)
  case less
  show ?case
  proof (cases s)
    case Nil
    then show ?thesis
      by (simp add: appendString.simps [of "[]"] string_lit.simps [of "DQ # rest"])
  next
    case (Cons b r)
    show ?thesis
    proof (cases "byte b < 0x80")
      case True
      with less.prems Cons have v: "ValidString r" by (simp add: ValidString_Cons_ascii)
      have ih: "string_lit (appendString r @ DQ # rest) = Inr (r, rest)"
        using less.hyps [of r] v Cons by simp
      show ?thesis
      proof (cases "htmlSafeSet b")
        case True
        then have "appendString s = b # appendString r"
          using \<open>byte b < 0x80\<close> by (subst appendString.simps) (simp add: Cons)
        then show ?thesis
          using True ih by (simp add: string_lit_safe Cons)
      next
        case False
        then have "appendString s = escape_ascii b @ appendString r"
          using \<open>byte b < 0x80\<close> by (subst appendString.simps) (simp add: Cons)
        then show ?thesis
          using string_lit_escape_ascii [OF \<open>byte b < 0x80\<close> False] ih by (simp add: Cons)
      qed
    next
      case False
      let ?n = "snd (DecodeRune s)"
      have ne: "s \<noteq> []" by (simp add: Cons)
      from less.prems ne have ok: "\<not> (fst (DecodeRune s) = RuneError \<and> snd (DecodeRune s) = 1)"
        and v: "ValidString (drop ?n s)"
        by (subst (asm) ValidString.simps, simp)+
      have "0 < ?n" using ne by (rule DecodeRune_size_pos)
      then have "length (drop ?n s) < length s" using ne by simp
      then have ih: "string_lit (appendString (drop ?n s) @ DQ # rest) = Inr (drop ?n s, rest)"
        using less.hyps v by blast
      have hd: "0x80 \<le> byte (hd s)" using False by (simp add: Cons)
      show ?thesis
      proof (cases "fst (DecodeRune s) = 0x2028 \<or> fst (DecodeRune s) = 0x2029")
        case True
        then have "appendString s =
            [BS, CHR ''u'', CHR ''2'', CHR ''0'', CHR ''2'', hex (fst (DecodeRune s) mod 16)]
              @ appendString (drop ?n s)"
          using False ok by (subst appendString.simps) (auto simp add: Cons)
        then show ?thesis
          using string_lit_u202 [OF True] ih EncodeRune_DecodeRune [OF ne ok] by simp
      next
        case False
        then have "appendString s = take ?n s @ appendString (drop ?n s)"
          using \<open>\<not> byte b < 0x80\<close> ok by (subst appendString.simps) (auto simp add: Cons)
        then show ?thesis
          using string_lit_multibyte [OF ne hd ok] ih by simp
      qed
    qed
  qed
qed

text \<open>The records whose four fields are valid UTF-8.\<close>

definition valid_fields :: "Config \<Rightarrow> bool" where
  "valid_fields c =
     (ValidString (ConsumerKey c) \<and> ValidString (ConsumerSecret c) \<and> ValidString (AccessToken c)
      \<and> ValidString (AccessSecret c))"

lemma ValidString_ascii: "\<forall>c \<in> set s. byte c < 0x80 \<Longrightarrow> ValidString s"
  by (induction s) (simp_all add: ValidString_Cons_ascii ValidString.simps [of "[]"])

lemma valid_names:
  "ValidString ''consumer_key''" "ValidString ''consumer_secret''"
  "ValidString ''access_token''" "ValidString ''access_secret''"
  by (rule ValidString_ascii, simp)+

lemma json_value_encode_Config:
  assumes "valid_fields c"
  shows "json_value 0 (encode_Config c)
     = Inr (JObject [(''consumer_key'', JString (ConsumerKey c)),
                     (''consumer_secret'', JString (ConsumerSecret c)),
                     (''access_token'', JString (AccessToken c)),
                     (''access_secret'', JString (AccessSecret c))], [NL])"
  using assms valid_names
  by (simp add: valid_fields_def encode_Config_def member_line_def quote_def json_value.simps
      json_members.simps string_lit_appendString isSpace_def maxNestingDepth_def)

text \<open>What was saved is what is loaded, for a record of valid UTF-8.\<close>

lemma Decode_encode_Config:
  assumes "valid_fields c"
  shows "Decode (encode_Config c) emptyConfig = Inr c"
proof -
  have "skip_space (encode_Config c) \<noteq> []"
    by (simp add: encode_Config_def isSpace_def)
  then show ?thesis
    using json_value_encode_Config [OF assms]
    by (cases c)
      (simp add: Decode_def unmarshal_def find_field_def field_name_def set_field_def
        emptyConfig_def)
qed

lemma saveConfig_None:
  "saveConfig c w = (None, w') \<Longrightarrow> w' = w\<lparr>fs := File (encode_Config c)\<rparr>"
  by (auto simp add: saveConfig_def Create_def Encode_def
      split: fs_state.splits option.splits prod.splits)

text \<open>
  C4, as amended. A record whose four fields are valid UTF-8, once saved, is read back
  unchanged by the opening and decoding of \<open>loadOrCreateConfig\<close> (lines 55 to 64); when
  the record is complete, \<open>loadOrCreateConfig\<close> returns it.
\<close>

theorem save_then_load:
  assumes "saveConfig c w = (None, w')" "valid_fields c" "open_fault w' = None"
  shows "(\<exists>content. Open w' = Inr content \<and> Decode content emptyConfig = Inr c)
    \<and> (home_fault w' = None \<and> \<not> incomplete c \<longrightarrow> loadOrCreateConfig w' = (Loaded c, w'))"
proof -
  have w': "w' = w\<lparr>fs := File (encode_Config c)\<rparr>"
    using assms(1) by (rule saveConfig_None)
  then have f: "fs w' = File (encode_Config c)" by simp
  have d: "Decode (encode_Config c) emptyConfig = Inr c"
    using assms(2) by (rule Decode_encode_Config)
  have o: "Open w' = Inr (encode_Config c)"
    using f assms(3) by (simp add: Open_def)
  show ?thesis
    using o d load_present [OF _ f assms(3)] by simp
qed

theorem save_then_load_witness:
  "saveConfig sample_config (quiet_world\<lparr>fs := File ''{}''\<rparr>)
     = (None, quiet_world\<lparr>fs := File (encode_Config sample_config)\<rparr>)
   \<and> valid_fields sample_config
   \<and> Open (quiet_world\<lparr>fs := File (encode_Config sample_config)\<rparr>) = Inr (encode_Config sample_config)
   \<and> Decode (encode_Config sample_config) emptyConfig = Inr sample_config
   \<and> loadOrCreateConfig (quiet_world\<lparr>fs := File (encode_Config sample_config)\<rparr>)
     = (Loaded sample_config, quiet_world\<lparr>fs := File (encode_Config sample_config)\<rparr>)"
proof -
  have s: "saveConfig sample_config (quiet_world\<lparr>fs := File ''{}''\<rparr>)
     = (None, quiet_world\<lparr>fs := File (encode_Config sample_config)\<rparr>)"
    by (simp add: saveConfig_def Create_def Encode_def quiet_world_def)
  have v: "valid_fields sample_config"
    by (simp add: valid_fields_def sample_config_def ValidString_ascii)
  have o: "open_fault (quiet_world\<lparr>fs := File (encode_Config sample_config)\<rparr>) = None"
    by (simp add: quiet_world_def)
  have i: "\<not> incomplete sample_config" "home_fault (quiet_world\<lparr>fs := File (encode_Config sample_config)\<rparr>) = None"
    by (simp_all add: incomplete_def sample_config_def quiet_world_def)
  show ?thesis
    using save_then_load [OF s v o] s v i by (auto simp add: Open_def quiet_world_def)
qed

text \<open>
  C4 as stated fails for a field that is not valid UTF-8. A first run without a file is
  given the byte 0xFF as consumer key and saves the record it returns; the next run loads
  a record whose consumer key is the three bytes of U+FFFD.
\<close>

definition typed_0xFF :: "stdin_event list" where
  "typed_0xFF = bytes ([CHR 0xFF, NL] @ ''s'' @ [NL] @ ''t'' @ [NL] @ ''u'' @ [NL])"

theorem invalid_utf8_not_restored:
  "loadOrCreateConfig (quiet_world\<lparr>stdin := typed_0xFF\<rparr>)
     = (Loaded \<lparr>ConsumerKey = [CHR 0xFF], ConsumerSecret = ''s'', AccessToken = ''t'',
                AccessSecret = ''u''\<rparr>,
        quiet_world
          \<lparr>fs := File (encode_Config
               \<lparr>ConsumerKey = [CHR 0xFF], ConsumerSecret = ''s'', AccessToken = ''t'',
                  AccessSecret = ''u''\<rparr>),
           stdout := [Print (''Configuration file not found. Creating a new one...'' @ [NL]),
                      Print ''Enter Consumer Key: '', Print ''Enter Consumer Secret: '',
                      Print ''Enter Access Token: '', Print ''Enter Access Secret: '']\<rparr>)
   \<and> fst (loadOrCreateConfig (snd (loadOrCreateConfig (quiet_world\<lparr>stdin := typed_0xFF\<rparr>))))
     = Loaded \<lparr>ConsumerKey = [CHR 0xEF, CHR 0xBF, CHR 0xBD], ConsumerSecret = ''s'',
               AccessToken = ''t'', AccessSecret = ''u''\<rparr>"
proof -
  let ?c = "\<lparr>ConsumerKey = [CHR 0xFF], ConsumerSecret = ''s'', AccessToken = ''t'', AccessSecret = ''u''\<rparr>"
  let ?w = "quiet_world\<lparr>stdin := typed_0xFF\<rparr>"
  let ?w1 = "emit (Print (''Configuration file not found. Creating a new one...'' @ [NL])) (?w\<lparr>fs := NoFile\<rparr>)"
  let ?w' = "quiet_world
          \<lparr>fs := File (encode_Config ?c),
           stdout := [Print (''Configuration file not found. Creating a new one...'' @ [NL]),
                      Print ''Enter Consumer Key: '', Print ''Enter Consumer Secret: '',
                      Print ''Enter Access Token: '', Print ''Enter Access Secret: '']\<rparr>"
  have rd: "ReadString typed_0xFF = (([CHR 0xFF, NL], None), bytes (''s'' @ [NL] @ ''t'' @ [NL] @ ''u'' @ [NL]))"
    "ReadString (bytes (''s'' @ [NL] @ ''t'' @ [NL] @ ''u'' @ [NL])) = ((''s'' @ [NL], None), bytes (''t'' @ [NL] @ ''u'' @ [NL]))"
    "ReadString (bytes (''t'' @ [NL] @ ''u'' @ [NL])) = ((''t'' @ [NL], None), bytes (''u'' @ [NL]))"
    "ReadString (bytes (''u'' @ [NL])) = ((''u'' @ [NL], None), [])"
    by (simp_all add: typed_0xFF_def bytes_def)
  have tr: "TrimSpace [CHR 0xFF, NL] = [CHR 0xFF]"
    by (simp add: TrimSpace_def TrimFunc_def TrimLeftFunc_def TrimRightFunc_def asciiSpace_def
        IsSpace_def DecodeLastRune_def RuneStart_def cont_byte_def accept_lo_def accept_hi_def
        RuneError_def indexFunc.simps lastIndexFunc.simps last_start.simps DecodeRune.simps Let_def)
  have tr2: "TrimSpace (''s'' @ [NL]) = ''s''" "TrimSpace (''t'' @ [NL]) = ''t''"
    "TrimSpace (''u'' @ [NL]) = ''u''"
    by (simp_all add: TrimSpace_def asciiSpace_def)
  have l: "loadOrCreateConfig ?w = prompt_and_save emptyConfig ?w1"
    by (rule load_missing) (simp_all add: quiet_world_def)
  have p: "promptForConfigValues emptyConfig ?w1
     = (None, ?c, ?w1\<lparr>stdout := stdout ?w1 @ missing_prompts emptyConfig, stdin := []\<rparr>)"
    using rd tr tr2 [simplified]
    by (simp add: promptForConfigValues_eq emptyConfig_def stdin_at_secret_def stdin_at_token_def
        stdin_at_access_secret_def stdin_at_end_def emit_def quiet_world_def)
  have s: "prompt_and_save emptyConfig ?w1
     = (Loaded (fst (snd (promptForConfigValues emptyConfig ?w1))),
        (snd (snd (promptForConfigValues emptyConfig ?w1)))
          \<lparr>fs := File (encode_Config (fst (snd (promptForConfigValues emptyConfig ?w1))))\<rparr>)"
    by (rule prompt_and_save_ok) (simp_all add: emit_def quiet_world_def)
  have first: "loadOrCreateConfig ?w = (Loaded ?c, ?w')"
    unfolding l s p fst_conv snd_conv
    by (simp add: emit_def quiet_world_def missing_prompts_def emptyConfig_def)
  have d: "Decode (encode_Config ?c) emptyConfig
      = Inr \<lparr>ConsumerKey = [CHR 0xEF, CHR 0xBF, CHR 0xBD], ConsumerSecret = ''s'',
               AccessToken = ''t'', AccessSecret = ''u''\<rparr>"
    by (simp add: json_eval enc_eval DecodeRune.simps RuneError_def)
  have second: "fst (loadOrCreateConfig ?w')
      = Loaded \<lparr>ConsumerKey = [CHR 0xEF, CHR 0xBF, CHR 0xBD], ConsumerSecret = ''s'',
               AccessToken = ''t'', AccessSecret = ''u''\<rparr>"
    using load_present [of ?w' "encode_Config ?c"] d
    by (simp add: quiet_world_def incomplete_def)
  show ?thesis
    using first second by simp
qed

end
